theory Spec2Isabelle
  imports Main
begin

section \<open>Values and errors\<close>

text \<open>
  The bot is Python. A Python \<open>str\<close> is modelled as a \<open>string\<close> whose characters are
  code points below 256; a Python \<open>int\<close> is an \<open>int\<close>. Every exception the modelled
  code can raise is a constructor of \<open>error\<close>, and a function that may raise returns
  \<open>error + 'a\<close> with \<open>Inl\<close> for the exception.
\<close>

datatype error =
    OperationalError   \<comment> \<open>sqlite3: the statement was rejected or the store is unavailable\<close>
  | BadRequest         \<comment> \<open>telegram.error.BadRequest\<close>
  | TelegramError      \<comment> \<open>any other error of the chat transport\<close>
  | FetchError         \<comment> \<open>an error of the content API client\<close>
  | JSONDecodeError
  | TypeError
  | ValueError
  | IndexError
  | KeyError
  | AttributeError

text \<open>The Python values that reach the cache: \<open>None\<close>, an integer or a string.\<close>

datatype pyval = PNone | PInt int | PStr string

text \<open>The values a row of the store holds.\<close>

datatype sqlval = SNull | SInt int | SText string

text \<open>Truthiness, as \<open>if x:\<close> and \<open>not x\<close> test it.\<close>

fun truthy :: "pyval \<Rightarrow> bool" where
  "truthy PNone = False"
| "truthy (PInt i) = (i \<noteq> 0)"
| "truthy (PStr s) = (s \<noteq> [])"

section \<open>utils.py\<close>

text \<open>\<^verbatim>\<open>def clamp(value, least, most): return max(least, min(value, most))\<close>\<close>

definition clamp :: "int \<Rightarrow> int \<Rightarrow> int \<Rightarrow> int" where
  "clamp v least most = max least (min v most)"

text \<open>
  \<^verbatim>\<open>chunkify_text\<close>: the loop \<^verbatim>\<open>for start in range(0, len(text), chunk_length)\<close>,
  from the index \<open>start\<close> on. The slice \<^verbatim>\<open>text[start:end]\<close> is
  \<open>take (end - start) (drop start text)\<close> and \<^verbatim>\<open>text[start:]\<close> is \<open>drop start text\<close>.
\<close>

function chunk_loop :: "string \<Rightarrow> nat \<Rightarrow> nat \<Rightarrow> string list" where
  "chunk_loop text chunk_length start =
     (if chunk_length = 0 \<or> length text \<le> start then []
      else (let end = start + chunk_length;
                chunk = (if end < length text then take (end - start) (drop start text)
                         else drop start text)
            in chunk # chunk_loop text chunk_length end))"
  by pat_completeness auto
termination
  by (relation "measure (\<lambda>(text, chunk_length, start). length text - start)") auto

declare chunk_loop.simps [simp del]

text \<open>
  \<^verbatim>\<open>range(0, n, 0)\<close> raises \<open>ValueError\<close>; with a negative step the range from 0 is
  empty and no chunk is produced.
\<close>

definition chunkify_text :: "string \<Rightarrow> int \<Rightarrow> error + string list" where
  "chunkify_text text chunk_length =
     (if chunk_length = 0 then Inl ValueError
      else if chunk_length < 0 then Inr []
      else Inr (chunk_loop text (nat chunk_length) 0))"

section \<open>Strings\<close>

text \<open>
  The string operations of Python the handlers use. Characters that have no literal
  are written by their code point.
\<close>

definition sq :: char where "sq = CHR 0x27"   \<comment> \<open>the apostrophe\<close>
definition dq :: char where "dq = CHR 0x22"   \<comment> \<open>the double quote\<close>
definition bs :: char where "bs = CHR 0x5C"   \<comment> \<open>the backslash\<close>
definition nl :: char where "nl = CHR 0x0A"   \<comment> \<open>the newline\<close>

definition code_point :: "char \<Rightarrow> nat" where
  "code_point c = of_char c"

text \<open>\<^verbatim>\<open>str.isspace\<close> on code points below 256.\<close>

definition isspace :: "char \<Rightarrow> bool" where
  "isspace c = (let n = code_point c in
     (9 \<le> n \<and> n \<le> 13) \<or> (28 \<le> n \<and> n \<le> 32) \<or> n = 133 \<or> n = 160)"

text \<open>\<^verbatim>\<open>s.strip()\<close> and \<^verbatim>\<open>s.strip("'")\<close>: drop the matching characters at both ends.\<close>

definition strip_with :: "(char \<Rightarrow> bool) \<Rightarrow> string \<Rightarrow> string" where
  "strip_with P s = rev (dropWhile P (rev (dropWhile P s)))"

definition strip :: "string \<Rightarrow> string" where
  "strip s = strip_with isspace s"

text \<open>\<^verbatim>\<open>sep.join(xs)\<close>\<close>

fun join :: "string \<Rightarrow> string list \<Rightarrow> string" where
  "join sep [] = []"
| "join sep [x] = x"
| "join sep (x # y # ys) = x @ sep @ join sep (y # ys)"

text \<open>\<^verbatim>\<open>s.split(c)\<close> for a one-character separator: never empty.\<close>

fun split_on :: "char \<Rightarrow> string \<Rightarrow> string list" where
  "split_on c [] = [[]]"
| "split_on c (x # xs) =
     (if x = c then [] # split_on c xs
      else (case split_on c xs of p # ps \<Rightarrow> (x # p) # ps | [] \<Rightarrow> [[x]]))"

text \<open>
  \<^verbatim>\<open>str.isnumeric\<close> on code points below 256: the ASCII digits, the superscripts
  one, two and three, and the three vulgar fractions; the empty string is not numeric.
\<close>

definition numeric_char :: "char \<Rightarrow> bool" where
  "numeric_char c = (let n = code_point c in
     (48 \<le> n \<and> n \<le> 57) \<or> n = 178 \<or> n = 179 \<or> n = 185 \<or> (188 \<le> n \<and> n \<le> 190))"

definition isnumeric :: "string \<Rightarrow> bool" where
  "isnumeric s = (s \<noteq> [] \<and> list_all numeric_char s)"

text \<open>\<^verbatim>\<open>str(i)\<close> for an integer: its decimal digits, with a minus sign when negative.\<close>

definition digit_char :: "nat \<Rightarrow> char" where
  "digit_char d = char_of (48 + d)"

function show_nat :: "nat \<Rightarrow> string" where
  "show_nat n = (if n < 10 then [digit_char n] else show_nat (n div 10) @ [digit_char (n mod 10)])"
  by pat_completeness auto
termination
  by (relation "measure id") auto

declare show_nat.simps [simp del]

definition str_int :: "int \<Rightarrow> string" where
  "str_int i = (if i < 0 then CHR ''-'' # show_nat (nat (- i)) else show_nat (nat i))"

text \<open>\<^verbatim>\<open>str(v)\<close>, as an f-string renders a value.\<close>

fun str :: "pyval \<Rightarrow> string" where
  "str PNone = ''None''"
| "str (PInt i) = str_int i"
| "str (PStr s) = s"

text \<open>
  Reading a decimal integer: an optional sign and at least one ASCII digit. This is what
  \<^verbatim>\<open>int(s)\<close> accepts among the texts a callback payload \<^verbatim>\<open>"<category>:<signedStep>"\<close>
  carries; Python's \<^verbatim>\<open>int\<close> also tolerates surrounding blanks and underscores between
  digits, which no button of this bot produces and which the model reports as
  \<open>ValueError\<close>.
\<close>

fun digits_value :: "string \<Rightarrow> nat \<Rightarrow> nat option" where
  "digits_value [] acc = Some acc"
| "digits_value (c # cs) acc =
     (if 48 \<le> code_point c \<and> code_point c \<le> 57
      then digits_value cs (10 * acc + (code_point c - 48)) else None)"

definition parse_int :: "string \<Rightarrow> int option" where
  "parse_int s =
     (case s of
        [] \<Rightarrow> None
      | c # cs \<Rightarrow>
          if c = CHR ''-'' then (if cs = [] then None else map_option (\<lambda>n. - int n) (digits_value cs 0))
          else if c = CHR ''+'' then (if cs = [] then None else map_option int (digits_value cs 0))
          else map_option int (digits_value s 0))"

definition py_int :: "string \<Rightarrow> error + int" where
  "py_int s = (case parse_int s of None \<Rightarrow> Inl ValueError | Some i \<Rightarrow> Inr i)"

text \<open>
  \<^verbatim>\<open>json.dumps({"identifier": identifier})\<close> with the default \<^verbatim>\<open>ensure_ascii\<close>: the
  quote and the backslash are escaped with a backslash, the five short escapes are used,
  every other character outside the printable ASCII range becomes \<^verbatim>\<open>\u00xx\<close>.
\<close>

definition hex_digit :: "nat \<Rightarrow> char" where
  "hex_digit d = (if d < 10 then char_of (48 + d) else char_of (87 + d))"

definition json_escape :: "char \<Rightarrow> string" where
  "json_escape c =
     (let n = code_point c in
      if c = dq then [bs, dq]
      else if c = bs then [bs, bs]
      else if n = 10 then [bs, CHR ''n'']
      else if n = 13 then [bs, CHR ''r'']
      else if n = 9 then [bs, CHR ''t'']
      else if n = 8 then [bs, CHR ''b'']
      else if n = 12 then [bs, CHR ''f'']
      else if 32 \<le> n \<and> n \<le> 126 then [c]
      else [bs, CHR ''u'', CHR ''0'', CHR ''0'', hex_digit (n div 16), hex_digit (n mod 16)])"

definition json_string :: "string \<Rightarrow> string" where
  "json_string s = dq # concat (map json_escape s) @ [dq]"

definition dumps_identifier :: "string \<Rightarrow> string" where
  "dumps_identifier identifier =
     ''{'' @ json_string ''identifier'' @ '': '' @ json_string identifier @ ''}''"

section \<open>settings.py\<close>

datatype DatabaseTables = PREFERENCES | KEYBOARD_ANIME | KEYBOARD_MANGA | KEYBOARD_CHARACTER

text \<open>The order in which \<^verbatim>\<open>for table in DatabaseTables\<close> visits the tables.\<close>

definition all_tables :: "DatabaseTables list" where
  "all_tables = [PREFERENCES, KEYBOARD_ANIME, KEYBOARD_MANGA, KEYBOARD_CHARACTER]"

section \<open>storage.py\<close>

text \<open>
  The columns the \<^verbatim>\<open>CREATE TABLE\<close> statements of \<^verbatim>\<open>setup_storage\<close> declare beside the
  key \<^verbatim>\<open>user_id\<close>. \<open>column_names\<close> is \<^verbatim>\<open>column_names[tablename][1:]\<close>, the columns the
  cache holds, and \<open>column_default\<close> is what \<^verbatim>\<open>INSERT ... (user_id) VALUES (?)\<close> leaves
  in a new row (\<^verbatim>\<open>Language.ENGLISH\<close> is 1).
\<close>

datatype column = LANGUAGE | MESSAGE_ID | REPLY_ID | STEP | CURRENT_PAGE | LAST_PAGE | KWARGS

fun column_names :: "DatabaseTables \<Rightarrow> column list" where
  "column_names PREFERENCES = [LANGUAGE]"
| "column_names KEYBOARD_ANIME = [MESSAGE_ID, REPLY_ID, STEP, CURRENT_PAGE, LAST_PAGE, KWARGS]"
| "column_names KEYBOARD_MANGA = [MESSAGE_ID, REPLY_ID, STEP, CURRENT_PAGE, LAST_PAGE, KWARGS]"
| "column_names KEYBOARD_CHARACTER = [MESSAGE_ID, REPLY_ID, STEP, CURRENT_PAGE, LAST_PAGE, KWARGS]"

fun column_default :: "column \<Rightarrow> sqlval" where
  "column_default LANGUAGE = SInt 1"
| "column_default STEP = SInt 1"
| "column_default MESSAGE_ID = SNull"
| "column_default REPLY_ID = SNull"
| "column_default CURRENT_PAGE = SNull"
| "column_default LAST_PAGE = SNull"
| "column_default KWARGS = SNull"

type_synonym row = "column \<rightharpoonup> sqlval"
type_synonym cache_row = "column \<rightharpoonup> pyval"
type_synonym user_data = "DatabaseTables \<Rightarrow> cache_row"

definition default_row :: "DatabaseTables \<Rightarrow> row" where
  "default_row t = map_of (map (\<lambda>c. (c, column_default c)) (column_names t))"

text \<open>What \<^verbatim>\<open>sqlite3\<close> hands to Python for a stored value.\<close>

fun py_of_sql :: "sqlval \<Rightarrow> pyval" where
  "py_of_sql SNull = PNone"
| "py_of_sql (SInt i) = PInt i"
| "py_of_sql (SText s) = PStr s"

text \<open>
  The three subclasses of \<^verbatim>\<open>PaginationKeyboardHandler\<close>, and an inline keyboard: rows
  of buttons.
\<close>

datatype handler = AnimeKeyboardHandler | CharacterKeyboardHandler | MangaKeyboardHandler

datatype button = InlineKeyboardButton string string   \<comment> \<open>label, callback data\<close>

type_synonym markup = "button list list"

text \<open>
  The effects a handler has outside the cache and the rows, in the order they happen:
  the \<^verbatim>\<open>UPDATE\<close> statements issued, the calls to the chat transport and the calls to the
  content API.
\<close>

datatype event =
    SqlUpdate DatabaseTables int "(column \<times> pyval) list"
  | DeleteMessage int pyval                \<comment> \<open>chat id, message id\<close>
  | ReplyText string pyval                 \<comment> \<open>text, reply_to_message_id\<close>
  | ReplyHtml string pyval markup          \<comment> \<open>text, reply_to_message_id, reply_markup\<close>
  | GetData handler string int             \<comment> \<open>identifier, page\<close>

text \<open>
  The process state: \<^verbatim>\<open>data_cache\<close>, the rows of the database as the connection sees
  them, and the effects so far.
\<close>

record world =
  data_cache :: "int \<rightharpoonup> user_data"
  db :: "DatabaseTables \<Rightarrow> int \<rightharpoonup> row"
  events :: "event list"

text \<open>\<^verbatim>\<open>class OnePage\<close> of keyboards.py, and the page information the API client returns.\<close>

record pagination =
  p_last :: int
  p_current :: int
  p_per_page :: int

definition OnePage :: pagination where
  "OnePage = \<lparr>p_last = 1, p_current = 1, p_per_page = 1\<rparr>"

text \<open>
  The collaborators during one handler call: whether \<^verbatim>\<open>cursor.execute\<close> and
  \<^verbatim>\<open>connection.commit\<close> go through, what the chat transport answers (\<open>None\<close> or the id
  of the new message when it succeeds, the exception otherwise), what the content API
  returns, already rendered by \<^verbatim>\<open>format_anime\<close> and its siblings (or the "not found"
  text), the BeautifulSoup filter \<^verbatim>\<open>remove_unspecified_tags\<close>, and \<^verbatim>\<open>json.loads\<close>
  followed by the binding of the decoded object to the parameters of \<^verbatim>\<open>get_data\<close>:
  the identifier, or the exception of either step.
\<close>

record env =
  execute_ok :: bool
  commit_ok :: bool
  delete_message :: "int \<Rightarrow> pyval \<Rightarrow> error option"
  reply_text :: "string \<Rightarrow> pyval \<Rightarrow> error + int"
  reply_html :: "string \<Rightarrow> pyval \<Rightarrow> markup \<Rightarrow> error + int"
  get_one :: "handler \<Rightarrow> string \<Rightarrow> error + string"
  search :: "handler \<Rightarrow> string \<Rightarrow> int \<Rightarrow> int \<Rightarrow> error + string \<times> pagination"
  remove_unspecified_tags :: "string \<Rightarrow> string"
  loads :: "string \<Rightarrow> error + string"

text \<open>
  \<^verbatim>\<open>set_user_data\<close> formats each value into the statement:
  \<^verbatim>\<open>", ".join(f"{key}={changes[key]}" for key in changes)\<close>. What the store receives is
  what SQLite reads in the text \<^verbatim>\<open>str(value)\<close>. An integer prints as a decimal literal and
  is read back as that integer. A string is read as SQL: \<^verbatim>\<open>NULL\<close> is the null value, a
  text between apostrophes is a string literal in which a doubled apostrophe stands for
  one and a single one ends the literal (so that what follows is a syntax error), digits
  are an integer literal. \<^verbatim>\<open>None\<close> prints as \<^verbatim>\<open>None\<close>, which names no column. These are
  the forms the handlers pass; any other text is reported as rejected.
\<close>

fun sql_unquote :: "string \<Rightarrow> string option" where
  "sql_unquote [] = Some []"
| "sql_unquote [c] = (if c = sq then None else Some [c])"
| "sql_unquote (c # d # ds) =
     (if c = sq then (if d = sq then map_option ((#) sq) (sql_unquote ds) else None)
      else map_option ((#) c) (sql_unquote (d # ds)))"

definition sql_text :: "string \<Rightarrow> sqlval option" where
  "sql_text s =
     (if s = ''NULL'' then Some SNull
      else if 2 \<le> length s \<and> hd s = sq \<and> last s = sq
        then map_option SText (sql_unquote (butlast (tl s)))
      else map_option SInt (parse_int s))"

fun sql_value :: "pyval \<Rightarrow> sqlval option" where
  "sql_value PNone = None"
| "sql_value (PInt i) = Some (SInt i)"
| "sql_value (PStr s) = sql_text s"

text \<open>
  The \<^verbatim>\<open>SET\<close> list of the statement: \<open>None\<close> when SQLite rejects it, because it is
  empty, names a column the table does not have, or holds a value it cannot read.
\<close>

definition sql_changes :: "DatabaseTables \<Rightarrow> (column \<times> pyval) list \<Rightarrow> (column \<times> sqlval) list option" where
  "sql_changes t changes =
     (if changes = [] then None
      else those (map (\<lambda>(k, v). if k \<in> set (column_names t) then map_option (Pair k) (sql_value v)
                                 else None) changes))"

text \<open>
  \<^verbatim>\<open>cursor.execute("UPDATE {tablename} SET {changes_string} WHERE user_id=?")\<close>: it
  raises when the store is unavailable or the statement is rejected, and otherwise
  rewrites the user's row, if there is one.
\<close>

definition execute_update ::
  "env \<Rightarrow> DatabaseTables \<Rightarrow> int \<Rightarrow> (column \<times> pyval) list \<Rightarrow> world \<Rightarrow> (error + unit) \<times> world" where
  "execute_update env t user_id changes w =
     (let w1 = w\<lparr>events := events w @ [SqlUpdate t user_id changes]\<rparr> in
      if \<not> execute_ok env then (Inl OperationalError, w1)
      else (case sql_changes t changes of
              None \<Rightarrow> (Inl OperationalError, w1)
            | Some cs \<Rightarrow>
                (case db w1 t user_id of
                   None \<Rightarrow> (Inr (), w1)
                 | Some r \<Rightarrow>
                     (Inr (), w1\<lparr>db := (db w1)(t := (db w1 t)(user_id \<mapsto>
                                   fold (\<lambda>(k, v) m. m(k \<mapsto> v)) cs r))\<rparr>))))"

definition commit :: "env \<Rightarrow> world \<Rightarrow> (error + unit) \<times> world" where
  "commit env w = (if commit_ok env then (Inr (), w) else (Inl OperationalError, w))"

text \<open>\<^verbatim>\<open>INSERT OR IGNORE INTO {tablename} (user_id) VALUES (?)\<close>\<close>

definition insert_or_ignore :: "DatabaseTables \<Rightarrow> int \<Rightarrow> world \<Rightarrow> world" where
  "insert_or_ignore t user_id w =
     (case db w t user_id of
        Some r \<Rightarrow> w
      | None \<Rightarrow> w\<lparr>db := (db w)(t := (db w t)(user_id \<mapsto> default_row t))\<rparr>)"

text \<open>
  The inner loop of \<^verbatim>\<open>setup_data_cache\<close>: the column names zipped with the fetched row.
\<close>

definition load_row :: "DatabaseTables \<Rightarrow> row \<Rightarrow> cache_row" where
  "load_row t r =
     map_of (map (\<lambda>c. (c, py_of_sql (case r c of None \<Rightarrow> SNull | Some v \<Rightarrow> v))) (column_names t))"

text \<open>
  The outer loop of \<^verbatim>\<open>setup_data_cache\<close>, over the tables still to visit: insert the
  row, commit, select it and fill \<^verbatim>\<open>user_data[tablename]\<close>. \<^verbatim>\<open>fetchone()\<close> on a missing
  row would return \<^verbatim>\<open>None\<close>, whose slice raises \<open>TypeError\<close>.
\<close>

fun setup_tables ::
  "env \<Rightarrow> int \<Rightarrow> DatabaseTables list \<Rightarrow> user_data \<Rightarrow> world \<Rightarrow> (error + user_data) \<times> world" where
  "setup_tables env user_id [] user_data w = (Inr user_data, w)"
| "setup_tables env user_id (t # ts) user_data w =
     (if \<not> execute_ok env then (Inl OperationalError, w)
      else (let w1 = insert_or_ignore t user_id w in
            if \<not> commit_ok env then (Inl OperationalError, w1)
            else (case db w1 t user_id of
                    None \<Rightarrow> (Inl TypeError, w1)
                  | Some r \<Rightarrow> setup_tables env user_id ts (user_data(t := load_row t r)) w1)))"

definition setup_data_cache :: "env \<Rightarrow> int \<Rightarrow> world \<Rightarrow> (error + unit) \<times> world" where
  "setup_data_cache env user_id w =
     (case setup_tables env user_id all_tables (\<lambda>t. Map.empty) w of
        (Inl e, w1) \<Rightarrow> (Inl e, w1)
      | (Inr user_data, w1) \<Rightarrow> (Inr (), w1\<lparr>data_cache := (data_cache w1)(user_id \<mapsto> user_data)\<rparr>))"

text \<open>
  The first lines of \<^verbatim>\<open>set_user_data\<close> and of \<^verbatim>\<open>get_user_data\<close>:
  \<^verbatim>\<open>if user_id not in data_cache: await setup_data_cache(user_id)\<close>.
\<close>

definition ensure_cached :: "env \<Rightarrow> int \<Rightarrow> world \<Rightarrow> (error + unit) \<times> world" where
  "ensure_cached env user_id w =
     (if data_cache w user_id = None then setup_data_cache env user_id w else (Inr (), w))"

text \<open>
  \<^verbatim>\<open>set_user_data\<close>. The table is one of \<open>DatabaseTables\<close>, so the assertion
  \<^verbatim>\<open>tablename in user_data\<close> holds. The store is written first (\<^verbatim>\<open>execute\<close>, then
  \<^verbatim>\<open>commit\<close>); the loop over the changes then writes the same Python values into the
  cached dictionary.
\<close>

definition set_user_data ::
  "env \<Rightarrow> int \<Rightarrow> DatabaseTables \<Rightarrow> (column \<times> pyval) list \<Rightarrow> world \<Rightarrow> (error + unit) \<times> world" where
  "set_user_data env user_id t changes w =
     (case ensure_cached env user_id w of
        (Inl e, w1) \<Rightarrow> (Inl e, w1)
      | (Inr u, w1) \<Rightarrow>
          (case data_cache w1 user_id of
             None \<Rightarrow> (Inl KeyError, w1)
           | Some user_data \<Rightarrow>
               (case execute_update env t user_id changes w1 of
                  (Inl e, w2) \<Rightarrow> (Inl e, w2)
                | (Inr u2, w2) \<Rightarrow>
                    (case commit env w2 of
                       (Inl e, w3) \<Rightarrow> (Inl e, w3)
                     | (Inr u3, w3) \<Rightarrow>
                         (Inr (), w3\<lparr>data_cache := (data_cache w3)(user_id \<mapsto>
                            user_data(t := fold (\<lambda>(k, v) m. m(k \<mapsto> v)) changes (user_data t)))\<rparr>)))))"

text \<open>\<^verbatim>\<open>get_user_data\<close>: the cached dictionary of the table, loaded on a miss.\<close>

definition get_user_data ::
  "env \<Rightarrow> int \<Rightarrow> DatabaseTables \<Rightarrow> world \<Rightarrow> (error + cache_row) \<times> world" where
  "get_user_data env user_id t w =
     (case ensure_cached env user_id w of
        (Inl e, w1) \<Rightarrow> (Inl e, w1)
      | (Inr u, w1) \<Rightarrow>
          (case data_cache w1 user_id of
             None \<Rightarrow> (Inl KeyError, w1)
           | Some user_data \<Rightarrow> (Inr (user_data t), w1)))"

text \<open>
  What the cache and the store hold for one field. A dictionary that
  \<^verbatim>\<open>get_user_data\<close> returned is the cached object itself, so reading it later is
  reading \<open>cached\<close> in the later state.
\<close>

definition cached :: "world \<Rightarrow> int \<Rightarrow> DatabaseTables \<Rightarrow> column \<Rightarrow> pyval option" where
  "cached w user_id t c = (case data_cache w user_id of None \<Rightarrow> None | Some user_data \<Rightarrow> user_data t c)"

definition stored :: "world \<Rightarrow> int \<Rightarrow> DatabaseTables \<Rightarrow> column \<Rightarrow> sqlval option" where
  "stored w user_id t c = (case db w t user_id of None \<Rightarrow> None | Some r \<Rightarrow> r c)"

section \<open>keyboards.py\<close>

text \<open>
  The subclasses differ in \<^verbatim>\<open>pattern\<close>, \<^verbatim>\<open>table_name\<close> and the API calls of
  \<^verbatim>\<open>get_data\<close>.
\<close>

fun pattern :: "handler \<Rightarrow> string" where
  "pattern AnimeKeyboardHandler = ''anime:(-)?[0-9]+''"
| "pattern CharacterKeyboardHandler = ''character:(-)?[0-9]+''"
| "pattern MangaKeyboardHandler = ''manga:(-)?[0-9]+''"

fun table_name :: "handler \<Rightarrow> DatabaseTables" where
  "table_name AnimeKeyboardHandler = KEYBOARD_ANIME"
| "table_name CharacterKeyboardHandler = KEYBOARD_CHARACTER"
| "table_name MangaKeyboardHandler = KEYBOARD_MANGA"

text \<open>
  The parts of a Telegram update the handlers read: \<^verbatim>\<open>update.effective_user.id\<close>,
  \<^verbatim>\<open>update.effective_chat.id\<close>, \<^verbatim>\<open>update.effective_message.message_id\<close>,
  \<^verbatim>\<open>update.callback_query.data\<close> and \<^verbatim>\<open>context.args\<close>.
\<close>

record tg_update =
  effective_user_id :: int
  effective_chat_id :: int
  effective_message_id :: int
  callback_data :: string
  args :: "string list"

text \<open>
  \<^verbatim>\<open>get_data\<close>: a numeric identifier names one item and the pagination is
  \<^verbatim>\<open>OnePage()\<close>; any other identifier is a search, one item per page, whose pagination
  is the one the API reports.
\<close>

definition get_data ::
  "env \<Rightarrow> handler \<Rightarrow> string \<Rightarrow> int \<Rightarrow> world \<Rightarrow> (error + string \<times> pagination) \<times> world" where
  "get_data env h identifier page w =
     (let w1 = w\<lparr>events := events w @ [GetData h identifier page]\<rparr> in
      if isnumeric identifier then
        (case get_one env h identifier of
           Inl e \<Rightarrow> (Inl e, w1)
         | Inr text \<Rightarrow> (Inr (remove_unspecified_tags env text, OnePage), w1))
      else
        (case search env h identifier 1 page of
           Inl e \<Rightarrow> (Inl e, w1)
         | Inr (text, pg) \<Rightarrow> (Inr (remove_unspecified_tags env text, pg), w1)))"

text \<open>
  The \<^verbatim>\<open>try / except error.BadRequest / finally\<close> of \<^verbatim>\<open>generate_markup\<close>: the deletion
  is attempted; the \<^verbatim>\<open>finally\<close> clause then writes \<^verbatim>\<open>message_id = "NULL"\<close> whatever the
  attempt did; an exception of that write replaces the pending one; otherwise an
  exception other than \<open>BadRequest\<close> is raised again.
\<close>

definition delete_previous_keyboard ::
  "env \<Rightarrow> handler \<Rightarrow> tg_update \<Rightarrow> pyval \<Rightarrow> world \<Rightarrow> (error + unit) \<times> world" where
  "delete_previous_keyboard env h upd previous_keyboard w =
     (let w1 = w\<lparr>events := events w @ [DeleteMessage (effective_chat_id upd) previous_keyboard]\<rparr>;
          outcome = delete_message env (effective_chat_id upd) previous_keyboard
      in case set_user_data env (effective_user_id upd) (table_name h) [(MESSAGE_ID, PStr ''NULL'')] w1 of
           (Inl e, w2) \<Rightarrow> (Inl e, w2)
         | (Inr u, w2) \<Rightarrow>
             (case outcome of
                None \<Rightarrow> (Inr (), w2)
              | Some e \<Rightarrow> if e = BadRequest then (Inr (), w2) else (Inl e, w2)))"

definition keyboard :: "handler \<Rightarrow> pyval \<Rightarrow> int \<Rightarrow> int \<Rightarrow> markup" where
  "keyboard h step current_page last_page =
     (let prefix = hd (split_on (CHR '':'') (pattern h));
          callback_data_previous = prefix @ '':-'' @ str step;
          callback_data_next = prefix @ '':'' @ str step
      in if last_page \<noteq> 1 then
           [if last_page \<noteq> 1 then [InlineKeyboardButton ''Previous'' callback_data_previous] else [],
            if current_page \<noteq> last_page then [InlineKeyboardButton ''Next'' callback_data_next] else []]
         else [])"

definition generate_markup ::
  "env \<Rightarrow> handler \<Rightarrow> int \<Rightarrow> int \<Rightarrow> tg_update \<Rightarrow> world \<Rightarrow> (error + markup) \<times> world" where
  "generate_markup env h current_page last_page upd w =
     (let current_page = clamp current_page 1 last_page in
      case get_user_data env (effective_user_id upd) (table_name h) w of
        (Inl e, w1) \<Rightarrow> (Inl e, w1)
      | (Inr user_data, w1) \<Rightarrow>
          (case user_data MESSAGE_ID of
             None \<Rightarrow> (Inl KeyError, w1)
           | Some previous_keyboard \<Rightarrow>
               (case user_data STEP of
                  None \<Rightarrow> (Inl KeyError, w1)
                | Some step \<Rightarrow>
                    (case (if truthy previous_keyboard
                           then delete_previous_keyboard env h upd previous_keyboard w1
                           else (Inr (), w1)) of
                       (Inl e, w2) \<Rightarrow> (Inl e, w2)
                     | (Inr u, w2) \<Rightarrow> (Inr (keyboard h step current_page last_page), w2)))))"

text \<open>
  \<^verbatim>\<open>handle_first\<close>. The committed \<^verbatim>\<open>kwargs\<close> is the JSON text between two apostrophes,
  so that the statement holds a string literal.
\<close>

definition handle_first :: "env \<Rightarrow> handler \<Rightarrow> tg_update \<Rightarrow> world \<Rightarrow> (error + unit) \<times> world" where
  "handle_first env h upd w =
     (let identifier = strip (join '' '' (args upd)) in
      if length identifier = 0 then (Inr (), w)
      else
        (case get_data env h identifier 1 w of
           (Inl e, w1) \<Rightarrow> (Inl e, w1)
         | (Inr (text, pg), w1) \<Rightarrow>
             (let text1 = ''1 of '' @ str_int (p_last pg) @ [nl, nl] @ text;
                  kwargs = [sq] @ dumps_identifier identifier @ [sq];
                  text2 = remove_unspecified_tags env text1
              in case generate_markup env h (p_current pg) (p_last pg) upd w1 of
                   (Inl e, w2) \<Rightarrow> (Inl e, w2)
                 | (Inr kb, w2) \<Rightarrow>
                     (let w3 = w2\<lparr>events := events w2 @
                                 [ReplyHtml text2 (PInt (effective_message_id upd)) kb]\<rparr>
                      in case reply_html env text2 (PInt (effective_message_id upd)) kb of
                           Inl e \<Rightarrow> (Inl e, w3)
                         | Inr message \<Rightarrow>
                             set_user_data env (effective_user_id upd) (table_name h)
                               [(MESSAGE_ID, PInt message),
                                (REPLY_ID, PInt (effective_message_id upd)),
                                (CURRENT_PAGE, PInt (p_current pg)),
                                (LAST_PAGE, PInt (p_last pg)),
                                (KWARGS, PStr kwargs)] w3))))"

text \<open>
  The reply of \<^verbatim>\<open>handle_next\<close>: anchored to \<^verbatim>\<open>reply_id\<close>, and sent again without an
  anchor when the first attempt raises \<open>BadRequest\<close>.
\<close>

definition reply_anchored ::
  "env \<Rightarrow> string \<Rightarrow> pyval \<Rightarrow> markup \<Rightarrow> world \<Rightarrow> (error + int) \<times> world" where
  "reply_anchored env text reply_to kb w =
     (let w1 = w\<lparr>events := events w @ [ReplyHtml text reply_to kb]\<rparr> in
      case reply_html env text reply_to kb of
        Inr message \<Rightarrow> (Inr message, w1)
      | Inl e \<Rightarrow>
          if e = BadRequest then
            (let w2 = w1\<lparr>events := events w1 @ [ReplyHtml text PNone kb]\<rparr> in
             case reply_html env text PNone kb of
               Inr message \<Rightarrow> (Inr message, w2)
             | Inl e2 \<Rightarrow> (Inl e2, w2))
          else (Inl e, w1))"

text \<open>
  \<^verbatim>\<open>handle_next\<close> from the line \<^verbatim>\<open>kwargs = pagination["kwargs"]\<close> on: the target page
  differs from the current one. \<^verbatim>\<open>strip\<close> exists on a string only.
\<close>

definition show_page ::
  "env \<Rightarrow> handler \<Rightarrow> tg_update \<Rightarrow> cache_row \<Rightarrow> int \<Rightarrow> int \<Rightarrow> world \<Rightarrow> (error + unit) \<times> world" where
  "show_page env h upd pg next_page last_page w =
     (case pg KWARGS of
        None \<Rightarrow> (Inl KeyError, w)
      | Some PNone \<Rightarrow> (Inl AttributeError, w)
      | Some (PInt i) \<Rightarrow> (Inl AttributeError, w)
      | Some (PStr ks) \<Rightarrow>
          (case loads env (strip_with (\<lambda>c. c = sq) ks) of
             Inl e \<Rightarrow> (Inl e, w)
           | Inr identifier \<Rightarrow>
               (case get_data env h identifier next_page w of
                  (Inl e, w1) \<Rightarrow> (Inl e, w1)
                | (Inr (text, pg1), w1) \<Rightarrow>
                    (let text1 = remove_unspecified_tags env text;
                         text2 = str_int next_page @ '' of '' @ str_int last_page @ [nl, nl] @ text1
                     in case generate_markup env h next_page last_page upd w1 of
                          (Inl e, w2) \<Rightarrow> (Inl e, w2)
                        | (Inr kb, w2) \<Rightarrow>
                            (case cached w2 (effective_user_id upd) (table_name h) REPLY_ID of
                               None \<Rightarrow> (Inl KeyError, w2)
                             | Some reply_to \<Rightarrow>
                                 (case reply_anchored env text2 reply_to kb w2 of
                                    (Inl e, w3) \<Rightarrow> (Inl e, w3)
                                  | (Inr message, w3) \<Rightarrow>
                                      set_user_data env (effective_user_id upd) (table_name h)
                                        [(MESSAGE_ID, PInt message), (CURRENT_PAGE, PInt next_page)]
                                        w3))))))"

text \<open>
  \<^verbatim>\<open>handle_next\<close>. \<^verbatim>\<open>data[1]\<close> raises \<open>IndexError\<close> when the payload has no colon;
  adding the step to a current page that is not an integer, or clamping against a last
  page that is not one, raises \<open>TypeError\<close>.
\<close>

definition handle_next :: "env \<Rightarrow> handler \<Rightarrow> tg_update \<Rightarrow> world \<Rightarrow> (error + unit) \<times> world" where
  "handle_next env h upd w =
     (case split_on (CHR '':'') (callback_data upd) of
        [] \<Rightarrow> (Inl IndexError, w)
      | [d0] \<Rightarrow> (Inl IndexError, w)
      | d0 # d1 # ds \<Rightarrow>
          (case py_int d1 of
             Inl e \<Rightarrow> (Inl e, w)
           | Inr step \<Rightarrow>
               (case get_user_data env (effective_user_id upd) (table_name h) w of
                  (Inl e, w1) \<Rightarrow> (Inl e, w1)
                | (Inr pg, w1) \<Rightarrow>
                    (case pg CURRENT_PAGE of
                       None \<Rightarrow> (Inl KeyError, w1)
                     | Some cur \<Rightarrow>
                         if \<not> truthy cur then
                           (let w2 = w1\<lparr>events := events w1 @
                                  [ReplyText ''Please run the command again''
                                     (PInt (effective_message_id upd))]\<rparr>
                            in case reply_text env ''Please run the command again''
                                      (PInt (effective_message_id upd)) of
                                 Inl e \<Rightarrow> (Inl e, w2)
                               | Inr message \<Rightarrow> (Inr (), w2))
                         else
                           (case cur of
                              PNone \<Rightarrow> (Inl TypeError, w1)
                            | PStr s \<Rightarrow> (Inl TypeError, w1)
                            | PInt current_page \<Rightarrow>
                                (case pg LAST_PAGE of
                                   None \<Rightarrow> (Inl KeyError, w1)
                                 | Some PNone \<Rightarrow> (Inl TypeError, w1)
                                 | Some (PStr s) \<Rightarrow> (Inl TypeError, w1)
                                 | Some (PInt last_page) \<Rightarrow>
                                     (let next_page = clamp (current_page + step) 1 last_page in
                                      if next_page = current_page then (Inr (), w1)
                                      else show_page env h upd pg next_page last_page w1)))))))"

text \<open>
  A run of navigation clicks: each click comes with the handler its payload selects and
  with the collaborators' behaviour while it is handled.
\<close>

fun navigate :: "(env \<times> handler \<times> tg_update) list \<Rightarrow> world \<Rightarrow> world" where
  "navigate [] w = w"
| "navigate ((env, h, upd) # clicks) w = navigate clicks (snd (handle_next env h upd w))"

text \<open>
  The pagination invariant of a user's cached state for one table:
  \<open>1 \<le> current_page \<le> last_page\<close>.
\<close>

definition page_invariant :: "world \<Rightarrow> int \<Rightarrow> DatabaseTables \<Rightarrow> bool" where
  "page_invariant w user_id t =
     (case (cached w user_id t CURRENT_PAGE, cached w user_id t LAST_PAGE) of
        (Some (PInt current_page), Some (PInt last_page)) \<Rightarrow>
           1 \<le> current_page \<and> current_page \<le> last_page
      | _ \<Rightarrow> False)"

text \<open>
  Whether, in a sequence of effects, a write that clears \<^verbatim>\<open>message_id\<close> comes before
  the first attempt to delete a message.
\<close>

fun clears_message_id :: "event \<Rightarrow> bool" where
  "clears_message_id (SqlUpdate t user_id changes) = ((MESSAGE_ID, PStr ''NULL'') \<in> set changes)"
| "clears_message_id (DeleteMessage chat_id message) = False"
| "clears_message_id (ReplyText text reply_to) = False"
| "clears_message_id (ReplyHtml text reply_to kb) = False"
| "clears_message_id (GetData h identifier page) = False"

fun is_delete :: "event \<Rightarrow> bool" where
  "is_delete (DeleteMessage chat_id message) = True"
| "is_delete (SqlUpdate t user_id changes) = False"
| "is_delete (ReplyText text reply_to) = False"
| "is_delete (ReplyHtml text reply_to kb) = False"
| "is_delete (GetData h identifier page) = False"

fun cleared_before_delete :: "event list \<Rightarrow> bool" where
  "cleared_before_delete [] = False"
| "cleared_before_delete (e # es) =
     (if is_delete e then False
      else if clears_message_id e then list_ex is_delete es
      else cleared_before_delete es)"

text \<open>
  Whether the cache holds, for one field of a user, the value the store holds for it.
\<close>

definition cache_matches_store :: "world \<Rightarrow> int \<Rightarrow> DatabaseTables \<Rightarrow> column \<Rightarrow> bool" where
  "cache_matches_store w user_id t c =
     (cached w user_id t c = map_option py_of_sql (stored w user_id t c))"

section \<open>Example inputs\<close>

text \<open>
  A run in which every collaborator succeeds: the store accepts the statements, the
  chat transport deletes and sends (the new message has id 101), a numeric identifier
  names an item, and a search reports three pages.
\<close>

definition env_ok :: env where
  "env_ok = \<lparr>execute_ok = True, commit_ok = True,
     delete_message = (\<lambda>chat_id message. None),
     reply_text = (\<lambda>text reply_to. Inr 100),
     reply_html = (\<lambda>text reply_to kb. Inr 101),
     get_one = (\<lambda>h identifier. Inr ''item''),
     search = (\<lambda>h identifier per_page page.
                 Inr (''item'', \<lparr>p_last = 3, p_current = 1, p_per_page = 1\<rparr>)),
     remove_unspecified_tags = (\<lambda>text. text),
     loads = (\<lambda>text. Inr ''naruto'')\<rparr>"



text \<open>The same, with a chat transport that no longer finds the message to delete.\<close>

definition env_gone :: env where
  "env_gone = env_ok\<lparr>delete_message := (\<lambda>chat_id message. Some BadRequest)\<rparr>"

text \<open>The process just started on an empty database.\<close>

definition w_empty :: world where
  "w_empty = \<lparr>data_cache = Map.empty, db = (\<lambda>t. Map.empty), events = []\<rparr>"

text \<open>User 1, in chat 2, sends message 3: \<^verbatim>\<open>/anime naruto\<close>.\<close>

definition upd_query :: tg_update where
  "upd_query = \<lparr>effective_user_id = 1, effective_chat_id = 2, effective_message_id = 3,
     callback_data = [], args = [''naruto'']\<rparr>"

text \<open>The same user sends \<^verbatim>\<open>/anime 21\<close>, and \<^verbatim>\<open>/anime JoJo's\<close>.\<close>

definition upd_numeric :: tg_update where
  "upd_numeric = upd_query\<lparr>args := [''21'']\<rparr>"

definition upd_apostrophe :: tg_update where
  "upd_apostrophe = upd_query\<lparr>args := [''JoJo'' @ [sq] @ ''s'']\<rparr>"

text \<open>User 1 presses a button of message 101; the payload is given.\<close>

definition upd_click :: "string \<Rightarrow> tg_update" where
  "upd_click payload = \<lparr>effective_user_id = 1, effective_chat_id = 2, effective_message_id = 101,
     callback_data = payload, args = []\<rparr>"

text \<open>
  User 1 has browsed \<^verbatim>\<open>/anime naruto\<close>: message 101 shows the given page of the
  given number of pages, and the cache and the store hold that session.
\<close>

definition kwargs_naruto :: string where
  "kwargs_naruto = dumps_identifier ''naruto''"

definition w_session :: "int \<Rightarrow> int \<Rightarrow> world" where
  "w_session current_page last_page =
     \<lparr>data_cache = [1 \<mapsto> (\<lambda>t. load_row t (default_row t))
         (KEYBOARD_ANIME := [MESSAGE_ID \<mapsto> PInt 101, REPLY_ID \<mapsto> PInt 3, STEP \<mapsto> PInt 1,
            CURRENT_PAGE \<mapsto> PInt current_page, LAST_PAGE \<mapsto> PInt last_page,
            KWARGS \<mapsto> PStr ([sq] @ kwargs_naruto @ [sq])])],
      db = (\<lambda>t. [1 \<mapsto> default_row t])
         (KEYBOARD_ANIME := [1 \<mapsto> [MESSAGE_ID \<mapsto> SInt 101, REPLY_ID \<mapsto> SInt 3, STEP \<mapsto> SInt 1,
            CURRENT_PAGE \<mapsto> SInt current_page, LAST_PAGE \<mapsto> SInt last_page,
            KWARGS \<mapsto> SText kwargs_naruto]]),
      events = []\<rparr>"

text \<open>The same rows after a restart: the cache is empty.\<close>

definition w_restarted :: "int \<Rightarrow> int \<Rightarrow> world" where
  "w_restarted current_page last_page = (w_session current_page last_page)\<lparr>data_cache := Map.empty\<rparr>"

section \<open>Theorems about utils.py\<close>


lemma chunk_loop_concat:
  "0 < n \<Longrightarrow> concat (chunk_loop s n start) = drop start s"
proof (induction s n start rule: chunk_loop.induct)
  case (1 s n start)
  show ?case
  proof (cases "length s \<le> start")
    case True
    then show ?thesis using "1.prems" by (simp add: chunk_loop.simps)
  next
    case False
    note inside = False
    show ?thesis
    proof (cases "start + n < length s")
      case True
      have "concat (chunk_loop s n start)
              = take n (drop start s) @ concat (chunk_loop s n (start + n))"
        using inside True "1.prems" by (subst chunk_loop.simps) (simp add: Let_def)
      also have "concat (chunk_loop s n (start + n)) = drop (start + n) s"
        using "1.IH" inside "1.prems" by simp
      also have "take n (drop start s) @ drop (start + n) s = drop start s"
        by (metis add.commute append_take_drop_id drop_drop)
      finally show ?thesis .
    next
      case False
      have last: "chunk_loop s n (start + n) = []"
        using False by (subst chunk_loop.simps) simp
      show ?thesis
        using inside False "1.prems" last by (subst chunk_loop.simps) (simp add: Let_def)
    qed
  qed
qed

lemma chunk_loop_length:
  "c \<in> set (chunk_loop s n start) \<Longrightarrow> length c \<le> n"
proof (induction s n start rule: chunk_loop.induct)
  case (1 s n start)
  show ?case
  proof (cases "n = 0 \<or> length s \<le> start")
    case True
    then show ?thesis using "1.prems" by (simp add: chunk_loop.simps)
  next
    case False
    then have unfold: "chunk_loop s n start =
        (if start + n < length s then take n (drop start s) else drop start s)
          # chunk_loop s n (start + n)"
      by (subst chunk_loop.simps) (simp add: Let_def)
    from "1.prems" unfold consider
        "c = (if start + n < length s then take n (drop start s) else drop start s)"
      | "c \<in> set (chunk_loop s n (start + n))"
      by auto
    then show ?thesis
    proof cases
      case 1
      then show ?thesis by (auto split: if_splits)
    next
      case 2
      then show ?thesis using "1.IH" False by simp
    qed
  qed
qed

text \<open>
  C2. For \<open>last_page \<ge> 1\<close>, any step and any current page in \<open>[1, last_page]\<close>, the target
  page of a navigation click, \<open>clamp (current_page + step) 1 last_page\<close> with
  \<open>clamp value least most = max least (min value most)\<close>, lies in \<open>[1, last_page]\<close>.
\<close>

theorem C2_target_page_in_range:
  assumes "1 \<le> last_page" and "1 \<le> current_page" and "current_page \<le> last_page"
  shows "clamp v least most = max least (min v most)
       \<and> 1 \<le> clamp (current_page + step) 1 last_page
       \<and> clamp (current_page + step) 1 last_page \<le> last_page"
  using assms by (simp add: clamp_def)

theorem C2_target_page_in_range_witness:
  "(1::int) \<le> 5 \<and> (1::int) \<le> 4 \<and> (4::int) \<le> 5
     \<and> 1 \<le> clamp (4 + 3) 1 5 \<and> clamp (4 + 3) 1 5 \<le> 5 \<and> clamp (4 + 3) 1 5 = 5"
  using C2_target_page_in_range [of 5 4 0 0 0 3] by (simp add: clamp_def)

text \<open>
  C10. For every text and every \<open>chunk_length > 0\<close>, \<open>chunkify_text\<close> returns a list of
  chunks whose concatenation, in order, is the text, and every chunk has at most
  \<open>chunk_length\<close> characters.
\<close>

theorem C10_chunkify_text:
  assumes "0 < chunk_length"
  shows "\<exists>chunks. chunkify_text text chunk_length = Inr chunks
           \<and> concat chunks = text
           \<and> (\<forall>c \<in> set chunks. int (length c) \<le> chunk_length)"
proof -
  have pos: "0 < nat chunk_length" using assms by simp
  have "chunkify_text text chunk_length = Inr (chunk_loop text (nat chunk_length) 0)"
    using assms by (simp add: chunkify_text_def)
  moreover have "concat (chunk_loop text (nat chunk_length) 0) = text"
    using chunk_loop_concat [OF pos, of _ 0] by simp
  moreover have "\<forall>c \<in> set (chunk_loop text (nat chunk_length) 0). int (length c) \<le> chunk_length"
    using chunk_loop_length [of _ _ "nat chunk_length" 0] assms by fastforce
  ultimately show ?thesis by blast
qed

theorem C10_chunkify_text_witness:
  "(0::int) < 2 \<and> chunkify_text ''abcde'' 2 = Inr [''ab'', ''cd'', ''e'']"
proof -
  have "\<exists>chunks. chunkify_text ''abcde'' 2 = Inr chunks \<and> concat chunks = ''abcde''
          \<and> (\<forall>c \<in> set chunks. int (length c) \<le> 2)"
    using C10_chunkify_text [of 2 "''abcde''"] by simp
  moreover have "chunkify_text ''abcde'' 2 = Inr [''ab'', ''cd'', ''e'']"
    by (simp add: chunkify_text_def chunk_loop.simps)
  ultimately show ?thesis by simp
qed

section \<open>Lemmas about storage.py\<close>

lemma insert_or_ignore_frame [simp]:
  "data_cache (insert_or_ignore t u w) = data_cache w"
  "events (insert_or_ignore t u w) = events w"
  by (simp_all add: insert_or_ignore_def split: option.splits)

lemma setup_tables_frame:
  "setup_tables env u ts ud w = (r, w') \<Longrightarrow> data_cache w' = data_cache w \<and> events w' = events w"
  by (induction ts arbitrary: ud w) (auto simp: Let_def split: if_splits option.splits)

lemma setup_data_cache_frame:
  assumes "setup_data_cache env u w = (r, w')"
  shows "events w' = events w"
    and "u' \<noteq> u \<Longrightarrow> data_cache w' u' = data_cache w u'"
    and "r = Inl e \<Longrightarrow> data_cache w' = data_cache w"
    and "r = Inr x \<Longrightarrow> data_cache w' u \<noteq> None"
  using assms
  by (auto simp: setup_data_cache_def split: prod.splits sum.splits dest: setup_tables_frame)

lemma ensure_cached_frame:
  assumes "ensure_cached env u w = (r, w')"
  shows "events w' = events w"
    and "u' \<noteq> u \<Longrightarrow> data_cache w' u' = data_cache w u'"
    and "r = Inl e \<Longrightarrow> data_cache w' = data_cache w"
    and "r = Inr x \<Longrightarrow> data_cache w' u \<noteq> None"
    and "data_cache w u \<noteq> None \<Longrightarrow> w' = w \<and> r = Inr ()"
  using assms
  by (auto simp: ensure_cached_def split: if_splits dest: setup_data_cache_frame)

lemma ensure_cached_keeps:
  assumes "ensure_cached env u w = (r, w')" and "data_cache w u' \<noteq> None"
  shows "data_cache w' u' = data_cache w u'"
  using assms ensure_cached_frame(2,5) by (cases "u' = u") fastforce+

lemma snd_get_user_data: "snd (get_user_data env u t w) = snd (ensure_cached env u w)"
  by (auto simp: get_user_data_def split: prod.splits sum.splits option.splits)

lemma execute_update_frame:
  "execute_update env t u cs w = (r, w') \<Longrightarrow>
     data_cache w' = data_cache w \<and> events w' = events w @ [SqlUpdate t u cs]
     \<and> (r = Inr () \<longrightarrow> execute_ok env \<and> sql_changes t cs \<noteq> None)"
  by (auto simp: execute_update_def Let_def split: if_splits option.splits)

lemma commit_frame: "commit env w = (r, w') \<Longrightarrow> w' = w \<and> (r = Inr () \<longrightarrow> commit_ok env)"
  by (auto simp: commit_def split: if_splits)

lemma cached_eq: "data_cache w' u = data_cache w u \<Longrightarrow> cached w' u t = cached w u t"
  by (auto simp: cached_def fun_eq_iff)

lemma set_user_data_cached:
  assumes "set_user_data env u t' changes w = (r, w')" and "data_cache w uid \<noteq> None"
  shows "data_cache w' uid \<noteq> None"
    and "cached w' uid t = (if r = Inr () \<and> u = uid \<and> t' = t
            then fold (\<lambda>(k, v) m. m(k \<mapsto> v)) changes (cached w uid t) else cached w uid t)"
proof -
  obtain r1 w1 where ec: "ensure_cached env u w = (r1, w1)" by (cases "ensure_cached env u w")
  have k1: "data_cache w1 uid = data_cache w uid" using ensure_cached_keeps [OF ec assms(2)] .
  have both: "data_cache w' uid \<noteq> None \<and> cached w' uid t = (if r = Inr () \<and> u = uid \<and> t' = t
            then fold (\<lambda>(k, v) m. m(k \<mapsto> v)) changes (cached w uid t) else cached w uid t)"
  proof (cases r1)
    case (Inl e)
    then have "r = Inl e" "w' = w1" using assms(1) ec by (simp_all add: set_user_data_def)
    then show ?thesis using k1 assms(2) cached_eq [OF k1] by auto
  next
    case (Inr x)
    show ?thesis
    proof (cases "data_cache w1 u")
      case None
      then show ?thesis using ensure_cached_frame(4) [OF ec] Inr by auto
    next
      case (Some ud)
      obtain r2 w2 where eu: "execute_update env t' u changes w1 = (r2, w2)"
        by (cases "execute_update env t' u changes w1")
      note f2 = execute_update_frame [OF eu]
      obtain r3 w3 where cm: "commit env w2 = (r3, w3)" by (cases "commit env w2")
      note f3 = commit_frame [OF cm]
      have c2: "data_cache w2 uid = data_cache w uid" using f2 k1 by simp
      show ?thesis
      proof (cases r2)
        case (Inl e)
        then have "r = Inl e" "w' = w2" using assms(1) ec Inr Some eu by (simp_all add: set_user_data_def)
        then show ?thesis using c2 assms(2) cached_eq [OF c2] by auto
      next
        case inr2: (Inr y)
        show ?thesis
        proof (cases r3)
          case (Inl e)
          then have "r = Inl e" "w' = w3" using assms(1) ec Inr Some eu inr2 cm by (simp_all add: set_user_data_def)
          then show ?thesis using c2 f3 assms(2) cached_eq [OF c2] by auto
        next
          case inr3: (Inr z)
          then have r: "r = Inr ()"
            and w': "w' = w3\<lparr>data_cache := (data_cache w3)(u \<mapsto>
                       ud(t' := fold (\<lambda>(k, v) m. m(k \<mapsto> v)) changes (ud t')))\<rparr>"
            using assms(1) ec Inr Some eu inr2 cm by (auto simp: set_user_data_def)
          have w3: "data_cache w3 = data_cache w1" using f2 f3 by simp
          show ?thesis
          proof (cases "u = uid")
            case True
            have dw: "data_cache w uid = Some ud" using Some k1 True by simp
            have e: "cached w uid t = ud t" for t
              by (rule ext) (simp add: cached_def dw)
            have dw': "data_cache w' uid =
                Some (ud(t' := fold (\<lambda>(k, v) m. m(k \<mapsto> v)) changes (ud t')))"
              by (simp add: w' True)
            have c': "cached w' uid t =
                (ud(t' := fold (\<lambda>(k, v) m. m(k \<mapsto> v)) changes (ud t'))) t"
              by (rule ext) (simp add: cached_def dw')
            show ?thesis
              by (cases "t' = t") (simp_all add: r True dw' c' e)
          next
            case False
            then have d: "data_cache w' uid = data_cache w uid" using w' w3 k1 by simp
            show ?thesis using False assms(2) d cached_eq [OF d, of t] by simp
          qed
        qed
      qed
    qed
  qed
  from both show "data_cache w' uid \<noteq> None" by simp
  from both show "cached w' uid t = (if r = Inr () \<and> u = uid \<and> t' = t
            then fold (\<lambda>(k, v) m. m(k \<mapsto> v)) changes (cached w uid t) else cached w uid t)" by simp
qed



section \<open>Lemmas about keyboards.py\<close>

lemma ensure_cached_hit: "data_cache w u \<noteq> None \<Longrightarrow> ensure_cached env u w = (Inr (), w)"
  by (auto simp: ensure_cached_def)

lemma set_user_data_events:
  assumes "set_user_data env u t changes w = (r, w')" and "data_cache w u \<noteq> None"
  shows "events w' = events w @ [SqlUpdate t u changes]"
proof -
  obtain ud where ud: "data_cache w u = Some ud" using assms(2) by auto
  obtain r2 w2 where eu: "execute_update env t u changes w = (r2, w2)"
    by (cases "execute_update env t u changes w")
  have e2: "events w2 = events w @ [SqlUpdate t u changes]" using execute_update_frame [OF eu] by simp
  have "events w' = events w2"
    using assms(1) ud eu ensure_cached_hit [OF assms(2), of env]
    by (cases r2) (auto simp: set_user_data_def commit_def split: if_splits)
  then show ?thesis using e2 by simp
qed

lemma get_user_data_cached:
  assumes "get_user_data env u t' w = (r, w')"
  shows "events w' = events w"
    and "data_cache w uid \<noteq> None \<Longrightarrow> data_cache w' uid = data_cache w uid"
    and "r = Inr pg \<Longrightarrow> data_cache w' u \<noteq> None \<and> cached w' u t' = pg"
    and "data_cache w u \<noteq> None \<Longrightarrow> w' = w"
proof -
  obtain r1 w1 where ec: "ensure_cached env u w = (r1, w1)" by (cases "ensure_cached env u w")
  have w': "w' = w1" using assms ec snd_get_user_data [of env u t' w] by simp
  show "events w' = events w" using w' ensure_cached_frame(1) [OF ec] by simp
  show "data_cache w uid \<noteq> None \<Longrightarrow> data_cache w' uid = data_cache w uid"
    using w' ensure_cached_keeps [OF ec] by simp
  show "data_cache w u \<noteq> None \<Longrightarrow> w' = w" using w' ensure_cached_frame(5) [OF ec] by simp
  show "r = Inr pg \<Longrightarrow> data_cache w' u \<noteq> None \<and> cached w' u t' = pg"
    using assms ec by (auto simp: get_user_data_def cached_def split: sum.splits option.splits)
qed



lemma delete_previous_keyboard_cached:
  assumes "delete_previous_keyboard env h upd prev w = (r, w')" and "data_cache w uid \<noteq> None"
  shows "data_cache w' uid \<noteq> None"
    and "c \<noteq> MESSAGE_ID \<Longrightarrow> cached w' uid t c = cached w uid t c"
proof -
  let ?w1 = "w\<lparr>events := events w @ [DeleteMessage (effective_chat_id upd) prev]\<rparr>"
  obtain r2 w2 where s: "set_user_data env (effective_user_id upd) (table_name h)
      [(MESSAGE_ID, PStr ''NULL'')] ?w1 = (r2, w2)"
    by (cases "set_user_data env (effective_user_id upd) (table_name h) [(MESSAGE_ID, PStr ''NULL'')] ?w1")
  have w': "w' = w2" using assms(1) s
    by (auto simp: delete_previous_keyboard_def Let_def split: sum.splits option.splits if_splits)
  have c1: "data_cache ?w1 uid \<noteq> None" using assms(2) by simp
  show "data_cache w' uid \<noteq> None" using set_user_data_cached(1) [OF s c1] w' by simp
  show "c \<noteq> MESSAGE_ID \<Longrightarrow> cached w' uid t c = cached w uid t c"
    using set_user_data_cached(2) [OF s c1, of t] w' by (auto simp: cached_def)
qed









lemmas eval_defs = handle_first_def handle_next_def show_page_def reply_anchored_def generate_markup_def
  keyboard_def delete_previous_keyboard_def get_data_def get_user_data_def set_user_data_def
  ensure_cached_def setup_data_cache_def all_tables_def insert_or_ignore_def load_row_def
  default_row_def execute_update_def commit_def sql_changes_def sql_text_def parse_int_def
  dumps_identifier_def json_string_def json_escape_def code_point_def strip_def strip_with_def
  isspace_def isnumeric_def numeric_char_def clamp_def str_int_def show_nat.simps digit_char_def
  py_int_def cached_def stored_def page_invariant_def OnePage_def Let_def
  sq_def dq_def bs_def nl_def hex_digit_def

lemma generate_markup_success:
  assumes "generate_markup env h cur l upd w = (Inr kb, w')"
  shows "data_cache w' (effective_user_id upd) \<noteq> None"
    and "\<exists>st. kb = keyboard h st (clamp cur 1 l) l"
proof -
  obtain r1 w1 where g: "get_user_data env (effective_user_id upd) (table_name h) w = (r1, w1)"
    by (cases "get_user_data env (effective_user_id upd) (table_name h) w")
  have steps: "(\<exists>pg. r1 = Inr pg) \<and> (\<exists>st. kb = keyboard h st (clamp cur 1 l) l)
      \<and> (w' = w1 \<or> (\<exists>prev r2. delete_previous_keyboard env h upd prev w1 = (r2, w')))"
    using assms g
    by (auto simp: generate_markup_def Let_def split: sum.splits option.splits if_splits prod.splits)
  then obtain pg where "r1 = Inr pg" by blast
  then have c1: "data_cache w1 (effective_user_id upd) \<noteq> None"
    using get_user_data_cached(3) [OF g, of pg] by simp
  from steps have "w' = w1 \<or> (\<exists>prev r2. delete_previous_keyboard env h upd prev w1 = (r2, w'))" by simp
  then show "data_cache w' (effective_user_id upd) \<noteq> None"
    using c1 delete_previous_keyboard_cached(1) [of env h upd _ w1 _ w' "effective_user_id upd"] by blast
  from steps show "\<exists>st. kb = keyboard h st (clamp cur 1 l) l" by simp
qed

lemma handle_first_committed:
  assumes "handle_first env h upd w = (Inr (), w')" and "strip (join '' '' (args upd)) \<noteq> []"
  obtains body pg w1 kb w2 m rendered where
    "get_data env h (strip (join '' '' (args upd))) 1 w = (Inr (body, pg), w1)"
    "generate_markup env h (p_current pg) (p_last pg) upd w1 = (Inr kb, w2)"
    "set_user_data env (effective_user_id upd) (table_name h)
       [(MESSAGE_ID, PInt m), (REPLY_ID, PInt (effective_message_id upd)),
        (CURRENT_PAGE, PInt (p_current pg)), (LAST_PAGE, PInt (p_last pg)),
        (KWARGS, PStr ([sq] @ dumps_identifier (strip (join '' '' (args upd))) @ [sq]))]
       (w2\<lparr>events := events w2 @ [ReplyHtml rendered (PInt (effective_message_id upd)) kb]\<rparr>)
     = (Inr (), w')"
  using assms
  by (auto simp: handle_first_def Let_def split: sum.splits prod.splits if_splits)

lemma handle_first_pages:
  assumes hf: "handle_first env h upd w = (Inr (), w')"
    and ne: "strip (join '' '' (args upd)) \<noteq> []"
    and gd: "fst (get_data env h (strip (join '' '' (args upd))) 1 w) = Inr (body, pg)"
  shows "cached w' (effective_user_id upd) (table_name h) CURRENT_PAGE = Some (PInt (p_current pg))"
    and "cached w' (effective_user_id upd) (table_name h) LAST_PAGE = Some (PInt (p_last pg))"
proof -
  from hf ne obtain body' pg' w1 kb w2 m rendered where
    g: "get_data env h (strip (join '' '' (args upd))) 1 w = (Inr (body', pg'), w1)" and
    gm: "generate_markup env h (p_current pg') (p_last pg') upd w1 = (Inr kb, w2)" and
    su: "set_user_data env (effective_user_id upd) (table_name h)
       [(MESSAGE_ID, PInt m), (REPLY_ID, PInt (effective_message_id upd)),
        (CURRENT_PAGE, PInt (p_current pg')), (LAST_PAGE, PInt (p_last pg')),
        (KWARGS, PStr ([sq] @ dumps_identifier (strip (join '' '' (args upd))) @ [sq]))]
       (w2\<lparr>events := events w2 @ [ReplyHtml rendered (PInt (effective_message_id upd)) kb]\<rparr>)
     = (Inr (), w')"
    by (rule handle_first_committed)
  have pg: "pg' = pg" using g gd by simp
  have c3: "data_cache (w2\<lparr>events := events w2 @ [ReplyHtml rendered (PInt (effective_message_id upd)) kb]\<rparr>)
      (effective_user_id upd) \<noteq> None"
    using generate_markup_success(1) [OF gm] by simp
  note upd = set_user_data_cached(2) [OF su c3, of "table_name h"]
  show "cached w' (effective_user_id upd) (table_name h) CURRENT_PAGE = Some (PInt (p_current pg))"
    using upd pg by simp
  show "cached w' (effective_user_id upd) (table_name h) LAST_PAGE = Some (PInt (p_last pg))"
    using upd pg by simp
qed

lemma get_data_numeric:
  "isnumeric i \<Longrightarrow> fst (get_data env h i p w) = Inr (body, pg) \<Longrightarrow> pg = OnePage"
  by (auto simp: get_data_def Let_def split: sum.splits)




lemma get_user_data_hit:
  "data_cache w u = Some ud \<Longrightarrow> get_user_data env u t w = (Inr (ud t), w)"
  by (simp add: get_user_data_def ensure_cached_def)

lemma clamp_ge_1: "1 \<le> clamp v 1 l"
  by (simp add: clamp_def)

lemma handle_next_no_op:
  assumes "split_on (CHR '':'') (callback_data upd) = d0 # d1 # ds" and "py_int d1 = Inr step"
    and "get_user_data env (effective_user_id upd) (table_name h) w = (Inr pg, w1)"
    and "pg CURRENT_PAGE = Some (PInt c)" and "pg LAST_PAGE = Some (PInt l)"
    and "clamp (c + step) 1 l = c"
  shows "handle_next env h upd w = (Inr (), w1)"
proof -
  have "c \<noteq> 0" using clamp_ge_1 [of "c + step" l] assms(6) by simp
  then show ?thesis using assms by (simp add: handle_next_def)
qed

lemma handle_next_reissue:
  assumes "split_on (CHR '':'') (callback_data upd) = d0 # d1 # ds" and "py_int d1 = Inr step"
    and "get_user_data env (effective_user_id upd) (table_name h) w = (Inr pg, w1)"
    and "pg CURRENT_PAGE = Some cur" and "\<not> truthy cur"
  shows "handle_next env h upd w =
     ((case reply_text env ''Please run the command again'' (PInt (effective_message_id upd)) of
         Inl e \<Rightarrow> Inl e | Inr message \<Rightarrow> Inr ()),
      w1\<lparr>events := events w1 @
            [ReplyText ''Please run the command again'' (PInt (effective_message_id upd))]\<rparr>)"
  using assms by (simp add: handle_next_def Let_def split: sum.splits)

lemma handle_next_malformed:
  assumes "\<not> (\<exists>d0 d1 ds step. split_on (CHR '':'') (callback_data upd) = d0 # d1 # ds \<and> py_int d1 = Inr step)"
  shows "snd (handle_next env h upd w) = w"
  using assms by (auto simp: handle_next_def split: list.splits sum.splits)

lemma handle_next_one_page:
  assumes "data_cache w (effective_user_id upd) = Some ud"
    and "ud (table_name h) CURRENT_PAGE = Some (PInt 1)"
    and "ud (table_name h) LAST_PAGE = Some (PInt 1)"
  shows "snd (handle_next env h upd w) = w"
proof (cases "\<exists>d0 d1 ds step. split_on (CHR '':'') (callback_data upd) = d0 # d1 # ds \<and> py_int d1 = Inr step")
  case True
  then obtain d0 d1 ds step where p: "split_on (CHR '':'') (callback_data upd) = d0 # d1 # ds"
    "py_int d1 = Inr step" by blast
  have "clamp (1 + step) 1 1 = 1" by (simp add: clamp_def)
  then have "handle_next env h upd w = (Inr (), w)"
    using handle_next_no_op [OF p get_user_data_hit [OF assms(1)] assms(2,3)] by simp
  then show ?thesis by simp
next
  case False
  then show ?thesis by (rule handle_next_malformed)
qed

lemma navigate_one_page:
  assumes "data_cache w uid = Some ud"
    and "ud (table_name h) CURRENT_PAGE = Some (PInt 1)"
    and "ud (table_name h) LAST_PAGE = Some (PInt 1)"
    and "\<forall>click \<in> set clicks. fst (snd click) = h \<and> effective_user_id (snd (snd click)) = uid"
  shows "navigate clicks w = w"
  using assms(4)
proof (induction clicks)
  case Nil
  then show ?case by simp
next
  case (Cons click clicks)
  obtain env h' upd where click: "click = (env, h', upd)" by (cases click)
  then have h': "h' = h" and u: "effective_user_id upd = uid" using Cons.prems by simp_all
  have "snd (handle_next env h upd w) = w"
    using handle_next_one_page [of w upd ud h env] assms(1,2,3) u by simp
  then show ?case using Cons click h' by simp
qed

lemma numeric_session_one_page:
  assumes numeric: "isnumeric (strip (join '' '' (args upd)))"
    and hf: "handle_first env h upd w = (Inr (), w')"
  shows "cached w' (effective_user_id upd) (table_name h) CURRENT_PAGE = Some (PInt 1)
       \<and> cached w' (effective_user_id upd) (table_name h) LAST_PAGE = Some (PInt 1)
       \<and> (\<exists>before body changes. events w' = before @
             [ReplyHtml body (PInt (effective_message_id upd)) [],
              SqlUpdate (table_name h) (effective_user_id upd) changes])
       \<and> (\<forall>clicks. (\<forall>click \<in> set clicks. fst (snd click) = h
                       \<and> effective_user_id (snd (snd click)) = effective_user_id upd)
             \<longrightarrow> navigate clicks w' = w')
       \<and> (\<forall>env' click d0 d1 ds step. effective_user_id click = effective_user_id upd
             \<and> split_on (CHR '':'') (callback_data click) = d0 # d1 # ds \<and> py_int d1 = Inr step
             \<longrightarrow> handle_next env' h click w' = (Inr (), w'))"
proof -
  let ?i = "strip (join '' '' (args upd))"
  let ?u = "effective_user_id upd"
  let ?t = "table_name h"
  have ne: "?i \<noteq> []" using numeric by (simp add: isnumeric_def)
  from hf ne obtain body pg w1 kb w2 m rendered where
    g: "get_data env h ?i 1 w = (Inr (body, pg), w1)" and
    gm: "generate_markup env h (p_current pg) (p_last pg) upd w1 = (Inr kb, w2)" and
    su: "set_user_data env ?u ?t
       [(MESSAGE_ID, PInt m), (REPLY_ID, PInt (effective_message_id upd)),
        (CURRENT_PAGE, PInt (p_current pg)), (LAST_PAGE, PInt (p_last pg)),
        (KWARGS, PStr ([sq] @ dumps_identifier ?i @ [sq]))]
       (w2\<lparr>events := events w2 @ [ReplyHtml rendered (PInt (effective_message_id upd)) kb]\<rparr>)
     = (Inr (), w')"
    by (rule handle_first_committed)
  have gd: "fst (get_data env h ?i 1 w) = Inr (body, pg)" using g by simp
  have one: "pg = OnePage" using numeric gd by (rule get_data_numeric)
  have cur: "cached w' ?u ?t CURRENT_PAGE = Some (PInt 1)"
    using handle_first_pages(1) [OF hf ne gd] one by (simp add: OnePage_def)
  have last: "cached w' ?u ?t LAST_PAGE = Some (PInt 1)"
    using handle_first_pages(2) [OF hf ne gd] one by (simp add: OnePage_def)
  have kb: "kb = []"
    using generate_markup_success(2) [OF gm] one by (auto simp: keyboard_def OnePage_def)
  have c3: "data_cache (w2\<lparr>events := events w2 @ [ReplyHtml rendered (PInt (effective_message_id upd)) kb]\<rparr>)
      ?u \<noteq> None"
    using generate_markup_success(1) [OF gm] by simp
  have ev: "\<exists>before body changes. events w' = before @
             [ReplyHtml body (PInt (effective_message_id upd)) [], SqlUpdate ?t ?u changes]"
    using set_user_data_events [OF su c3] kb by auto
  have "data_cache w' ?u \<noteq> None" using set_user_data_cached(1) [OF su c3] .
  then obtain ud where ud: "data_cache w' ?u = Some ud" by auto
  have ud1: "ud ?t CURRENT_PAGE = Some (PInt 1)" using cur ud by (simp add: cached_def)
  have ud2: "ud ?t LAST_PAGE = Some (PInt 1)" using last ud by (simp add: cached_def)
  have nav: "\<forall>clicks. (\<forall>click \<in> set clicks. fst (snd click) = h
                       \<and> effective_user_id (snd (snd click)) = ?u)
             \<longrightarrow> navigate clicks w' = w'"
    using navigate_one_page [OF ud ud1 ud2] by blast
  have step: "\<forall>env' click d0 d1 ds step. effective_user_id click = ?u
             \<and> split_on (CHR '':'') (callback_data click) = d0 # d1 # ds \<and> py_int d1 = Inr step
             \<longrightarrow> handle_next env' h click w' = (Inr (), w')"
  proof (intro allI impI)
    fix env' and click :: tg_update and d0 d1 ds step
    assume a: "effective_user_id click = ?u
             \<and> split_on (CHR '':'') (callback_data click) = d0 # d1 # ds \<and> py_int d1 = Inr step"
    then have udc: "data_cache w' (effective_user_id click) = Some ud" using ud by simp
    have "clamp (1 + step) 1 1 = 1" by (simp add: clamp_def)
    then show "handle_next env' h click w' = (Inr (), w')"
      using handle_next_no_op [of click d0 d1 ds step env' h w' "ud ?t" w' 1 1]
        get_user_data_hit [OF udc, of env' ?t] a ud1 ud2 by simp
  qed
  show ?thesis using cur last ev nav step by blast
qed

lemma insert_or_ignore_rows:
  "db w t' u' = Some r \<Longrightarrow> db (insert_or_ignore t u w) t' u' = Some r"
  by (auto simp: insert_or_ignore_def split: option.splits)

lemma setup_tables_rows:
  "setup_tables env u ts ud w = (r, w') \<Longrightarrow> db w t' u' = Some row \<Longrightarrow> db w' t' u' = Some row"
proof (induction ts arbitrary: ud w)
  case Nil
  then show ?case by simp
next
  case (Cons t ts)
  show ?case
  proof (cases "execute_ok env \<and> commit_ok env \<and> db (insert_or_ignore t u w) t u \<noteq> None")
    case True
    then obtain r0 where r0: "db (insert_or_ignore t u w) t u = Some r0" by auto
    have "setup_tables env u ts (ud(t := load_row t r0)) (insert_or_ignore t u w) = (r, w')"
      using Cons.prems(1) True r0 by (simp add: Let_def)
    then show ?thesis
      using Cons.IH insert_or_ignore_rows [OF Cons.prems(2), of t u] by blast
  next
    case False
    then have "w' = w \<or> w' = insert_or_ignore t u w"
      using Cons.prems(1) by (auto simp: Let_def split: if_splits option.splits)
    then show ?thesis using Cons.prems(2) insert_or_ignore_rows [OF Cons.prems(2), of t u] by auto
  qed
qed

lemma get_user_data_rows:
  assumes "get_user_data env u t w = (r, w')" and "db w t' u' = Some row"
  shows "db w' t' u' = Some row"
proof -
  have "w' = snd (ensure_cached env u w)" using assms(1) snd_get_user_data [of env u t w] by simp
  then have "w' = w \<or> w' = snd (setup_data_cache env u w)" by (simp add: ensure_cached_def)
  moreover have "db (snd (setup_data_cache env u w)) t' u' = Some row"
  proof -
    obtain r1 w1 where st: "setup_tables env u all_tables (\<lambda>t. Map.empty) w = (r1, w1)"
      by (cases "setup_tables env u all_tables (\<lambda>t. Map.empty) w")
    have "db w1 t' u' = Some row" using setup_tables_rows [OF st assms(2)] .
    then show ?thesis using st by (auto simp: setup_data_cache_def split: sum.splits)
  qed
  ultimately show ?thesis using assms(2) by auto
qed

text \<open>
  C3. A navigation click whose target page \<open>clamp (current_page + step) 1 last_page\<close> is
  the current page makes \<open>handle_next\<close> return at once: no \<open>set_user_data\<close>, no content
  fetch, no message. What it leaves is what its first line, \<open>get_user_data\<close>, leaves:
  no effect is recorded, the cached values of every cached user and every row of the
  store are as before, and when the clicking user is already cached nothing changes at
  all. Stepping back from page 1 and stepping forward from the last page are such
  clicks, for every step.
\<close>

theorem C3_no_op_click:
  assumes "split_on (CHR '':'') (callback_data upd) = d0 # d1 # ds" and "py_int d1 = Inr step"
    and "fst (get_user_data env (effective_user_id upd) (table_name h) w) = Inr pg"
    and "pg CURRENT_PAGE = Some (PInt c)" and "pg LAST_PAGE = Some (PInt l)"
    and "clamp (c + step) 1 l = c"
  shows "handle_next env h upd w
           = (Inr (), snd (get_user_data env (effective_user_id upd) (table_name h) w))
       \<and> events (snd (handle_next env h upd w)) = events w
       \<and> (data_cache w (effective_user_id upd) \<noteq> None \<longrightarrow> handle_next env h upd w = (Inr (), w))
       \<and> (\<forall>u t col. data_cache w u \<noteq> None \<longrightarrow>
             cached (snd (handle_next env h upd w)) u t col = cached w u t col)
       \<and> (\<forall>t u r. db w t u = Some r \<longrightarrow> db (snd (handle_next env h upd w)) t u = Some r)
       \<and> (s < 0 \<longrightarrow> clamp (1 + s) 1 m = 1)
       \<and> (0 < s \<and> 1 \<le> m \<longrightarrow> clamp (m + s) 1 m = m)"
proof -
  obtain w1 where g: "get_user_data env (effective_user_id upd) (table_name h) w = (Inr pg, w1)"
    using assms(3) by (cases "get_user_data env (effective_user_id upd) (table_name h) w") simp
  have hn: "handle_next env h upd w = (Inr (), w1)"
    using handle_next_no_op [OF assms(1,2) g assms(4,5,6)] .
  have 1: "handle_next env h upd w
           = (Inr (), snd (get_user_data env (effective_user_id upd) (table_name h) w))"
    using hn g by simp
  have 2: "events (snd (handle_next env h upd w)) = events w"
    using hn get_user_data_cached(1) [OF g] by simp
  have 3: "data_cache w (effective_user_id upd) \<noteq> None \<longrightarrow> handle_next env h upd w = (Inr (), w)"
    using hn get_user_data_cached(4) [OF g] by simp
  have 4: "\<forall>u t col. data_cache w u \<noteq> None \<longrightarrow>
             cached (snd (handle_next env h upd w)) u t col = cached w u t col"
  proof (intro allI impI)
    fix u t col
    assume "data_cache w u \<noteq> None"
    then have "data_cache w1 u = data_cache w u" using get_user_data_cached(2) [OF g] by simp
    then have "cached w1 u t = cached w u t" by (rule cached_eq)
    then show "cached (snd (handle_next env h upd w)) u t col = cached w u t col" using hn by simp
  qed
  have 5: "\<forall>t u r. db w t u = Some r \<longrightarrow> db (snd (handle_next env h upd w)) t u = Some r"
    using hn get_user_data_rows [OF g] by simp
  have 6: "s < 0 \<longrightarrow> clamp (1 + s) 1 m = 1" by (simp add: clamp_def)
  have 7: "0 < s \<and> 1 \<le> m \<longrightarrow> clamp (m + s) 1 m = m" by (simp add: clamp_def)
  show ?thesis using 1 2 3 4 5 6 7 by blast
qed

text \<open>
  C7. A navigation click that finds no current page (null, or any value Python takes
  for false) makes \<open>handle_next\<close> reply "Please run the command again" and issue no
  \<open>set_user_data\<close>: the state it leaves is the one its first line, \<open>get_user_data\<close>,
  leaves, with that reply as the only effect. The cached values of every cached user
  and every row of the store are as before, and when the clicking user is already
  cached the cache and the store do not change.
\<close>

theorem C7_uninitialised_click:
  assumes "split_on (CHR '':'') (callback_data upd) = d0 # d1 # ds" and "py_int d1 = Inr step"
    and "fst (get_user_data env (effective_user_id upd) (table_name h) w) = Inr pg"
    and "pg CURRENT_PAGE = Some cur" and "\<not> truthy cur"
  shows "snd (handle_next env h upd w)
           = (snd (get_user_data env (effective_user_id upd) (table_name h) w))
               \<lparr>events := events w @
                   [ReplyText ''Please run the command again'' (PInt (effective_message_id upd))]\<rparr>
       \<and> fst (handle_next env h upd w)
           = (case reply_text env ''Please run the command again'' (PInt (effective_message_id upd)) of
                Inl e \<Rightarrow> Inl e | Inr message \<Rightarrow> Inr ())
       \<and> (data_cache w (effective_user_id upd) \<noteq> None \<longrightarrow>
             data_cache (snd (handle_next env h upd w)) = data_cache w
           \<and> db (snd (handle_next env h upd w)) = db w)
       \<and> (\<forall>u t col. data_cache w u \<noteq> None \<longrightarrow>
             cached (snd (handle_next env h upd w)) u t col = cached w u t col)
       \<and> (\<forall>t u r. db w t u = Some r \<longrightarrow> db (snd (handle_next env h upd w)) t u = Some r)"
proof -
  obtain w1 where g: "get_user_data env (effective_user_id upd) (table_name h) w = (Inr pg, w1)"
    using assms(3) by (cases "get_user_data env (effective_user_id upd) (table_name h) w") simp
  note hn = handle_next_reissue [OF assms(1,2) g assms(4,5)]
  have ev: "events w1 = events w" using get_user_data_cached(1) [OF g] .
  have 1: "snd (handle_next env h upd w)
           = (snd (get_user_data env (effective_user_id upd) (table_name h) w))
               \<lparr>events := events w @
                   [ReplyText ''Please run the command again'' (PInt (effective_message_id upd))]\<rparr>"
    using hn g ev by simp
  have 2: "fst (handle_next env h upd w)
           = (case reply_text env ''Please run the command again'' (PInt (effective_message_id upd)) of
                Inl e \<Rightarrow> Inl e | Inr message \<Rightarrow> Inr ())"
    using hn by simp
  have 3: "data_cache w (effective_user_id upd) \<noteq> None \<longrightarrow>
             data_cache (snd (handle_next env h upd w)) = data_cache w
           \<and> db (snd (handle_next env h upd w)) = db w"
    using hn get_user_data_cached(4) [OF g] by simp
  have 4: "\<forall>u t col. data_cache w u \<noteq> None \<longrightarrow>
             cached (snd (handle_next env h upd w)) u t col = cached w u t col"
  proof (intro allI impI)
    fix u t col
    assume "data_cache w u \<noteq> None"
    then have "data_cache w1 u = data_cache w u" using get_user_data_cached(2) [OF g] by simp
    then have "data_cache (snd (handle_next env h upd w)) u = data_cache w u" using hn by simp
    then have "cached (snd (handle_next env h upd w)) u t = cached w u t" by (rule cached_eq)
    then show "cached (snd (handle_next env h upd w)) u t col = cached w u t col" by simp
  qed
  have 5: "\<forall>t u r. db w t u = Some r \<longrightarrow> db (snd (handle_next env h upd w)) t u = Some r"
    using hn get_user_data_rows [OF g] by simp
  show ?thesis using 1 2 3 4 5 by blast
qed

text \<open>
  The click is not free of writes to the cache: after a restart the first click of a
  user, here a step back from page 1 of 5, loads the user's rows into \<open>data_cache\<close>.
\<close>

theorem C3_no_op_click_counterexample:
  "data_cache (w_restarted 1 5) 1 = None
   \<and> stored (w_restarted 1 5) 1 KEYBOARD_ANIME CURRENT_PAGE = Some (SInt 1)
   \<and> stored (w_restarted 1 5) 1 KEYBOARD_ANIME LAST_PAGE = Some (SInt 5)
   \<and> fst (handle_next env_ok AnimeKeyboardHandler (upd_click ''anime:-1'') (w_restarted 1 5)) = Inr ()
   \<and> events (snd (handle_next env_ok AnimeKeyboardHandler (upd_click ''anime:-1'') (w_restarted 1 5))) = []
   \<and> data_cache (snd (handle_next env_ok AnimeKeyboardHandler (upd_click ''anime:-1'') (w_restarted 1 5))) 1
       \<noteq> data_cache (w_restarted 1 5) 1
   \<and> cached (snd (handle_next env_ok AnimeKeyboardHandler (upd_click ''anime:-1'') (w_restarted 1 5)))
       1 KEYBOARD_ANIME CURRENT_PAGE = Some (PInt 1)"
  by (simp add: eval_defs env_ok_def upd_click_def w_restarted_def w_session_def kwargs_naruto_def)

text \<open>
  The click is not free of mutations: after a restart on an empty store, the click
  inserts the user's default rows and creates the user's cache entry.
\<close>

theorem C7_uninitialised_click_counterexample:
  "data_cache w_empty 1 = None
   \<and> db w_empty KEYBOARD_ANIME 1 = None
   \<and> fst (handle_next env_ok AnimeKeyboardHandler (upd_click ''anime:1'') w_empty) = Inr ()
   \<and> events (snd (handle_next env_ok AnimeKeyboardHandler (upd_click ''anime:1'') w_empty))
       = [ReplyText ''Please run the command again'' (PInt 101)]
   \<and> data_cache (snd (handle_next env_ok AnimeKeyboardHandler (upd_click ''anime:1'') w_empty)) 1
       \<noteq> data_cache w_empty 1
   \<and> db (snd (handle_next env_ok AnimeKeyboardHandler (upd_click ''anime:1'') w_empty)) KEYBOARD_ANIME 1
       \<noteq> db w_empty KEYBOARD_ANIME 1
   \<and> stored (snd (handle_next env_ok AnimeKeyboardHandler (upd_click ''anime:1'') w_empty))
       1 KEYBOARD_ANIME CURRENT_PAGE = Some SNull"
  by (simp add: eval_defs env_ok_def upd_click_def w_empty_def)

theorem C3_no_op_click_witness:
  "handle_next env_ok AnimeKeyboardHandler (upd_click ''anime:-1'') (w_session 1 5)
     = (Inr (), w_session 1 5)
   \<and> handle_next env_ok AnimeKeyboardHandler (upd_click ''anime:2'') (w_session 5 5)
     = (Inr (), w_session 5 5)"
proof -
  have bwd: "handle_next env_ok AnimeKeyboardHandler (upd_click ''anime:-1'') (w_session 1 5)
     = (Inr (), w_session 1 5)"
  proof -
    let ?pg = "the (data_cache (w_session 1 5) 1) KEYBOARD_ANIME"
    have 1: "split_on (CHR '':'') (callback_data (upd_click ''anime:-1'')) = [''anime'', ''-1'']"
      by (simp add: upd_click_def)
    have 2: "py_int ''-1'' = Inr (- 1)" by (simp add: eval_defs)
    have 3: "fst (get_user_data env_ok (effective_user_id (upd_click ''anime:-1''))
        (table_name AnimeKeyboardHandler) (w_session 1 5)) = Inr ?pg"
      by (simp add: get_user_data_def ensure_cached_def upd_click_def w_session_def)
    have 4: "?pg CURRENT_PAGE = Some (PInt 1)" by (simp add: w_session_def)
    have 5: "?pg LAST_PAGE = Some (PInt 5)" by (simp add: w_session_def)
    have 6: "clamp (1 + - 1) 1 5 = 1" by (simp add: clamp_def)
    have 7: "data_cache (w_session 1 5) (effective_user_id (upd_click ''anime:-1'')) \<noteq> None"
      by (simp add: upd_click_def w_session_def)
    show ?thesis using C3_no_op_click [OF 1 2 3 4 5 6] 7 by blast
  qed
  have fwd: "handle_next env_ok AnimeKeyboardHandler (upd_click ''anime:2'') (w_session 5 5)
     = (Inr (), w_session 5 5)"
  proof -
    let ?pg = "the (data_cache (w_session 5 5) 1) KEYBOARD_ANIME"
    have 1: "split_on (CHR '':'') (callback_data (upd_click ''anime:2'')) = [''anime'', ''2'']"
      by (simp add: upd_click_def)
    have 2: "py_int ''2'' = Inr 2" by (simp add: eval_defs)
    have 3: "fst (get_user_data env_ok (effective_user_id (upd_click ''anime:2''))
        (table_name AnimeKeyboardHandler) (w_session 5 5)) = Inr ?pg"
      by (simp add: get_user_data_def ensure_cached_def upd_click_def w_session_def)
    have 4: "?pg CURRENT_PAGE = Some (PInt 5)" by (simp add: w_session_def)
    have 5: "?pg LAST_PAGE = Some (PInt 5)" by (simp add: w_session_def)
    have 6: "clamp (5 + 2) 1 5 = 5" by (simp add: clamp_def)
    have 7: "data_cache (w_session 5 5) (effective_user_id (upd_click ''anime:2'')) \<noteq> None"
      by (simp add: upd_click_def w_session_def)
    show ?thesis using C3_no_op_click [OF 1 2 3 4 5 6] 7 by blast
  qed
  show ?thesis using bwd fwd by simp
qed

theorem C7_uninitialised_click_witness:
  "fst (handle_next env_ok AnimeKeyboardHandler (upd_click ''anime:1'') w_empty) = Inr ()
   \<and> events (snd (handle_next env_ok AnimeKeyboardHandler (upd_click ''anime:1'') w_empty))
       = [ReplyText ''Please run the command again'' (PInt 101)]"
proof -
  let ?pg = "load_row KEYBOARD_ANIME (default_row KEYBOARD_ANIME)"
  have 1: "split_on (CHR '':'') (callback_data (upd_click ''anime:1'')) = [''anime'', ''1'']"
    by (simp add: upd_click_def)
  have 2: "py_int ''1'' = Inr 1" by (simp add: eval_defs)
  have 3: "fst (get_user_data env_ok (effective_user_id (upd_click ''anime:1''))
      (table_name AnimeKeyboardHandler) w_empty) = Inr ?pg"
    by (simp add: get_user_data_def ensure_cached_def setup_data_cache_def all_tables_def
        insert_or_ignore_def Let_def env_ok_def upd_click_def w_empty_def)
  have 4: "?pg CURRENT_PAGE = Some PNone" by (simp add: load_row_def default_row_def)
  have 5: "\<not> truthy PNone" by simp
  note inst = C7_uninitialised_click [OF 1 2 3 4 5]
  have a: "fst (handle_next env_ok AnimeKeyboardHandler (upd_click ''anime:1'') w_empty) = Inr ()"
    using inst by (simp add: env_ok_def)
  have "events (snd (handle_next env_ok AnimeKeyboardHandler (upd_click ''anime:1'') w_empty))
       = events w_empty @ [ReplyText ''Please run the command again''
                             (PInt (effective_message_id (upd_click ''anime:1'')))]"
    using inst by simp
  then have b: "events (snd (handle_next env_ok AnimeKeyboardHandler (upd_click ''anime:1'') w_empty))
       = [ReplyText ''Please run the command again'' (PInt 101)]"
    by (simp add: w_empty_def upd_click_def)
  show ?thesis using a b by simp
qed

lemma generate_markup_previous:
  assumes "get_user_data env (effective_user_id upd) (table_name h) w = (Inr ud, w1)"
    and "ud MESSAGE_ID = Some prev" and "truthy prev" and "ud STEP = Some st"
  shows "generate_markup env h cur l upd w =
     (case set_user_data env (effective_user_id upd) (table_name h) [(MESSAGE_ID, PStr ''NULL'')]
             (w1\<lparr>events := events w1 @ [DeleteMessage (effective_chat_id upd) prev]\<rparr>) of
        (Inl e, w2) \<Rightarrow> (Inl e, w2)
      | (Inr u, w2) \<Rightarrow>
          (case delete_message env (effective_chat_id upd) prev of
             None \<Rightarrow> (Inr (keyboard h st (clamp cur 1 l) l), w2)
           | Some e \<Rightarrow> if e = BadRequest then (Inr (keyboard h st (clamp cur 1 l) l), w2)
                       else (Inl e, w2)))"
  using assms
  by (simp add: generate_markup_def delete_previous_keyboard_def Let_def
      split: prod.splits sum.splits option.splits)

lemma sql_changes_clear:
  "sql_changes (table_name h) [(MESSAGE_ID, PStr ''NULL'')] = Some [(MESSAGE_ID, SNull)]"
  by (cases h) (simp_all add: sql_changes_def sql_text_def)

lemma set_user_data_accepted:
  assumes "data_cache w u = Some ud" and "execute_ok env" and "commit_ok env"
    and "sql_changes t changes = Some cs"
  shows "fst (set_user_data env u t changes w) = Inr ()"
    and "db w t u = Some r \<Longrightarrow>
         db (snd (set_user_data env u t changes w)) t u = Some (fold (\<lambda>(k, v) m. m(k \<mapsto> v)) cs r)"
  using assms
  by (auto simp: set_user_data_def ensure_cached_def execute_update_def commit_def Let_def
      split: option.splits)

text \<open>
  C5. When \<open>generate_markup\<close> finds a previously displayed message, it first attempts
  to delete it, while the reference is still stored, and then, in the \<open>finally\<close>
  clause, overwrites the stored \<open>message_id\<close>, whatever the attempt did: the effects are
  the deletion attempt followed by the clearing write. When the store accepts that
  write, the row's \<open>message_id\<close> is null and the cached field no longer holds the old
  message id, after a successful deletion, after one that failed with \<open>BadRequest\<close>
  (which is swallowed) and after one that failed otherwise (which is raised again).
\<close>

theorem C5_delete_then_clear:
  assumes "fst (get_user_data env (effective_user_id upd) (table_name h) w) = Inr ud"
    and "ud MESSAGE_ID = Some prev" and "truthy prev" and "ud STEP = Some st"
  shows "events (snd (generate_markup env h cur l upd w))
           = events w @ [DeleteMessage (effective_chat_id upd) prev,
                         SqlUpdate (table_name h) (effective_user_id upd) [(MESSAGE_ID, PStr ''NULL'')]]
       \<and> (execute_ok env \<and> commit_ok env \<longrightarrow>
             cached (snd (generate_markup env h cur l upd w)) (effective_user_id upd) (table_name h)
               MESSAGE_ID = Some (PStr ''NULL'')
           \<and> (db (snd (get_user_data env (effective_user_id upd) (table_name h) w))
                 (table_name h) (effective_user_id upd) \<noteq> None \<longrightarrow>
               stored (snd (generate_markup env h cur l upd w)) (effective_user_id upd) (table_name h)
                 MESSAGE_ID = Some SNull)
           \<and> fst (generate_markup env h cur l upd w)
               = (case delete_message env (effective_chat_id upd) prev of
                    None \<Rightarrow> Inr (keyboard h st (clamp cur 1 l) l)
                  | Some e \<Rightarrow> if e = BadRequest then Inr (keyboard h st (clamp cur 1 l) l)
                              else Inl e))"
proof -
  let ?u = "effective_user_id upd"
  let ?t = "table_name h"
  obtain w1 where g: "get_user_data env ?u ?t w = (Inr ud, w1)"
    using assms(1) by (cases "get_user_data env ?u ?t w") simp
  let ?w1 = "w1\<lparr>events := events w1 @ [DeleteMessage (effective_chat_id upd) prev]\<rparr>"
  obtain r2 w2 where su: "set_user_data env ?u ?t [(MESSAGE_ID, PStr ''NULL'')] ?w1 = (r2, w2)"
    by (cases "set_user_data env ?u ?t [(MESSAGE_ID, PStr ''NULL'')] ?w1")
  note gm = generate_markup_previous [OF g assms(2,3,4), of cur l]
  have w': "snd (generate_markup env h cur l upd w) = w2"
    using gm su by (auto split: sum.splits option.splits)
  have hit1: "data_cache w1 ?u \<noteq> None" using get_user_data_cached(3) [OF g, of ud] by simp
  then have hit: "data_cache ?w1 ?u \<noteq> None" by simp
  have ev1: "events w1 = events w" using get_user_data_cached(1) [OF g] .
  have 1: "events (snd (generate_markup env h cur l upd w))
           = events w @ [DeleteMessage (effective_chat_id upd) prev,
                         SqlUpdate ?t ?u [(MESSAGE_ID, PStr ''NULL'')]]"
    using set_user_data_events [OF su hit] w' ev1 by simp
  have 2: "cached (snd (generate_markup env h cur l upd w)) ?u ?t MESSAGE_ID = Some (PStr ''NULL'')
           \<and> (db (snd (get_user_data env ?u ?t w)) ?t ?u \<noteq> None \<longrightarrow>
               stored (snd (generate_markup env h cur l upd w)) ?u ?t MESSAGE_ID = Some SNull)
           \<and> fst (generate_markup env h cur l upd w)
               = (case delete_message env (effective_chat_id upd) prev of
                    None \<Rightarrow> Inr (keyboard h st (clamp cur 1 l) l)
                  | Some e \<Rightarrow> if e = BadRequest then Inr (keyboard h st (clamp cur 1 l) l)
                              else Inl e)"
    if ok: "execute_ok env \<and> commit_ok env"
  proof -
    obtain ud1 where ud1: "data_cache ?w1 ?u = Some ud1" using hit by auto
    have r2: "r2 = Inr ()"
      using set_user_data_accepted(1) [OF ud1 _ _ sql_changes_clear, of env h] ok su by simp
    have a: "cached w2 ?u ?t MESSAGE_ID = Some (PStr ''NULL'')"
      using set_user_data_cached(2) [OF su hit, of ?t] r2 by simp
    have b: "db (snd (get_user_data env ?u ?t w)) ?t ?u \<noteq> None \<longrightarrow>
               stored w2 ?u ?t MESSAGE_ID = Some SNull"
    proof
      assume "db (snd (get_user_data env ?u ?t w)) ?t ?u \<noteq> None"
      then obtain r where "db ?w1 ?t ?u = Some r" using g by auto
      then have "db w2 ?t ?u = Some (fold (\<lambda>(k, v) m. m(k \<mapsto> v)) [(MESSAGE_ID, SNull)] r)"
        using set_user_data_accepted(2) [OF ud1 _ _ sql_changes_clear, of env h r] ok su by simp
      then show "stored w2 ?u ?t MESSAGE_ID = Some SNull" by (simp add: stored_def)
    qed
    have c: "fst (generate_markup env h cur l upd w)
               = (case delete_message env (effective_chat_id upd) prev of
                    None \<Rightarrow> Inr (keyboard h st (clamp cur 1 l) l)
                  | Some e \<Rightarrow> if e = BadRequest then Inr (keyboard h st (clamp cur 1 l) l)
                              else Inl e)"
      using gm su r2 by (simp split: option.splits)
    show ?thesis using a b c w' by simp
  qed
  show ?thesis using 1 2 by blast
qed

text \<open>
  The reference is not cleared before the deletion is attempted: the deletion of
  message 101 is the first effect, the clearing write the second.
\<close>

theorem C5_delete_then_clear_counterexample:
  "cached (w_session 1 3) 1 KEYBOARD_ANIME MESSAGE_ID = Some (PInt 101)
   \<and> events (snd (generate_markup env_gone AnimeKeyboardHandler 2 3 (upd_click ''anime:1'') (w_session 1 3)))
       = [DeleteMessage 2 (PInt 101), SqlUpdate KEYBOARD_ANIME 1 [(MESSAGE_ID, PStr ''NULL'')]]
   \<and> \<not> cleared_before_delete
         (events (snd (generate_markup env_gone AnimeKeyboardHandler 2 3 (upd_click ''anime:1'')
                         (w_session 1 3))))"
  by (simp add: eval_defs env_gone_def env_ok_def upd_click_def w_session_def kwargs_naruto_def)

theorem C5_delete_then_clear_witness:
  "fst (generate_markup env_gone AnimeKeyboardHandler 2 3 (upd_click ''anime:1'') (w_session 1 3))
     = Inr [[InlineKeyboardButton ''Previous'' ''anime:-1''], [InlineKeyboardButton ''Next'' ''anime:1'']]
   \<and> cached (snd (generate_markup env_gone AnimeKeyboardHandler 2 3 (upd_click ''anime:1'') (w_session 1 3)))
        1 KEYBOARD_ANIME MESSAGE_ID = Some (PStr ''NULL'')
   \<and> stored (snd (generate_markup env_gone AnimeKeyboardHandler 2 3 (upd_click ''anime:1'') (w_session 1 3)))
        1 KEYBOARD_ANIME MESSAGE_ID = Some SNull"
proof -
  let ?ud = "the (data_cache (w_session 1 3) 1) KEYBOARD_ANIME"
  have 1: "fst (get_user_data env_gone (effective_user_id (upd_click ''anime:1''))
      (table_name AnimeKeyboardHandler) (w_session 1 3)) = Inr ?ud"
    by (simp add: get_user_data_def ensure_cached_def upd_click_def w_session_def)
  have 2: "?ud MESSAGE_ID = Some (PInt 101)" by (simp add: w_session_def)
  have 3: "truthy (PInt 101)" by simp
  have 4: "?ud STEP = Some (PInt 1)" by (simp add: w_session_def)
  have ok: "execute_ok env_gone \<and> commit_ok env_gone" by (simp add: env_gone_def env_ok_def)
  have row: "db (snd (get_user_data env_gone (effective_user_id (upd_click ''anime:1''))
      (table_name AnimeKeyboardHandler) (w_session 1 3)))
      (table_name AnimeKeyboardHandler) (effective_user_id (upd_click ''anime:1'')) \<noteq> None"
    by (simp add: get_user_data_def ensure_cached_def upd_click_def w_session_def)
  note inst = C5_delete_then_clear [OF 1 2 3 4, of 2 3]
  have u: "effective_user_id (upd_click ''anime:1'') = 1" "effective_chat_id (upd_click ''anime:1'') = 2"
    by (simp_all add: upd_click_def)
  have kb: "keyboard AnimeKeyboardHandler (PInt 1) (clamp 2 1 3) 3
      = [[InlineKeyboardButton ''Previous'' ''anime:-1''], [InlineKeyboardButton ''Next'' ''anime:1'']]"
    by code_simp
  have d: "delete_message env_gone 2 (PInt 101) = Some BadRequest" by (simp add: env_gone_def)
  show ?thesis using inst ok row u kb d by simp
qed

text \<open>
  C4. After a successful mutation the cache is meant to hold, field by field, the value
  the store holds. \<open>set_user_data\<close> formats the Python value into the statement and
  caches the same Python value, so the two agree for an integer and differ for the two
  strings the handlers pass. After \<open>generate_markup\<close> has cleared the reference of
  message 101, the row's \<open>message_id\<close> is null and the cache holds the text \<open>NULL\<close>;
  after the commit of \<^verbatim>\<open>/anime naruto\<close>, the row's \<open>kwargs\<close> is the JSON text and the
  cache holds it between apostrophes.
\<close>

theorem C4_cache_diverges_from_store:
  "cached (snd (generate_markup env_ok AnimeKeyboardHandler 2 3 (upd_click ''anime:1'') (w_session 1 3)))
      1 KEYBOARD_ANIME MESSAGE_ID = Some (PStr ''NULL'')
   \<and> stored (snd (generate_markup env_ok AnimeKeyboardHandler 2 3 (upd_click ''anime:1'') (w_session 1 3)))
      1 KEYBOARD_ANIME MESSAGE_ID = Some SNull
   \<and> \<not> cache_matches_store
        (snd (generate_markup env_ok AnimeKeyboardHandler 2 3 (upd_click ''anime:1'') (w_session 1 3)))
        1 KEYBOARD_ANIME MESSAGE_ID
   \<and> fst (handle_first env_ok AnimeKeyboardHandler upd_query w_empty) = Inr ()
   \<and> cached (snd (handle_first env_ok AnimeKeyboardHandler upd_query w_empty))
      1 KEYBOARD_ANIME KWARGS = Some (PStr ([sq] @ dumps_identifier ''naruto'' @ [sq]))
   \<and> stored (snd (handle_first env_ok AnimeKeyboardHandler upd_query w_empty))
      1 KEYBOARD_ANIME KWARGS = Some (SText (dumps_identifier ''naruto''))
   \<and> \<not> cache_matches_store (snd (handle_first env_ok AnimeKeyboardHandler upd_query w_empty))
        1 KEYBOARD_ANIME KWARGS
   \<and> cache_matches_store (snd (handle_first env_ok AnimeKeyboardHandler upd_query w_empty))
        1 KEYBOARD_ANIME CURRENT_PAGE"
  by (simp add: eval_defs cache_matches_store_def env_ok_def upd_click_def upd_query_def
      w_session_def w_empty_def kwargs_naruto_def)

text \<open>
  C6. The query parameters are meant to survive the write to the store and the later
  read unchanged, for every identifier. For \<^verbatim>\<open>/anime JoJo's\<close> they do not: the
  apostrophe ends the string literal that \<open>handle_first\<close> builds around the JSON text,
  SQLite rejects the statement, and \<open>handle_first\<close> raises after the reply was sent.
  Nothing is committed: \<open>kwargs\<close> and \<open>current_page\<close> stay null, and the next click is
  answered with "Please run the command again". A doubled apostrophe is accepted but
  stored as a single one, so the row holds the parameters of another identifier.
\<close>

theorem C6_apostrophe_not_stored:
  "strip (join '' '' (args upd_apostrophe)) = ''JoJo'' @ [sq] @ ''s''
   \<and> fst (handle_first env_ok AnimeKeyboardHandler upd_apostrophe w_empty) = Inl OperationalError
   \<and> sql_text ([sq] @ dumps_identifier (''JoJo'' @ [sq] @ ''s'') @ [sq]) = None
   \<and> cached (snd (handle_first env_ok AnimeKeyboardHandler upd_apostrophe w_empty))
        1 KEYBOARD_ANIME KWARGS = Some PNone
   \<and> stored (snd (handle_first env_ok AnimeKeyboardHandler upd_apostrophe w_empty))
        1 KEYBOARD_ANIME KWARGS = Some SNull
   \<and> cached (snd (handle_first env_ok AnimeKeyboardHandler upd_apostrophe w_empty))
        1 KEYBOARD_ANIME CURRENT_PAGE = Some PNone
   \<and> list_ex (\<lambda>e. case e of ReplyHtml body reply_to kb \<Rightarrow> True | _ \<Rightarrow> False)
        (events (snd (handle_first env_ok AnimeKeyboardHandler upd_apostrophe w_empty)))
   \<and> fst (handle_next env_ok AnimeKeyboardHandler (upd_click ''anime:1'')
             (snd (handle_first env_ok AnimeKeyboardHandler upd_apostrophe w_empty))) = Inr ()
   \<and> last (events (snd (handle_next env_ok AnimeKeyboardHandler (upd_click ''anime:1'')
             (snd (handle_first env_ok AnimeKeyboardHandler upd_apostrophe w_empty)))))
       = ReplyText ''Please run the command again'' (PInt 101)
   \<and> sql_text ([sq] @ dumps_identifier (''a'' @ [sq, sq] @ ''b'') @ [sq])
       = Some (SText (dumps_identifier (''a'' @ [sq] @ ''b'')))"
  by (simp add: eval_defs env_ok_def upd_click_def upd_apostrophe_def upd_query_def w_empty_def)

section \<open>Numeric identifiers\<close>

lemma code_point_sq: "code_point sq = 39"
  by (simp add: code_point_def sq_def)

lemma code_point_inj: "code_point a = code_point b \<Longrightarrow> a = b"
  by (simp add: code_point_def)

lemma hex_digit_plain: "d < 16 \<Longrightarrow> hex_digit d \<noteq> sq"
proof
  assume d: "d < 16" and "hex_digit d = sq"
  then have "code_point (hex_digit d) = 39" by (simp add: code_point_sq)
  then show False using d by (simp add: hex_digit_def code_point_def split: if_splits)
qed

lemma code_point_less: "code_point c < 256"
  by (simp add: code_point_def)

lemma json_escape_plain: "c \<noteq> sq \<Longrightarrow> sq \<notin> set (json_escape c)"
proof -
  assume c: "c \<noteq> sq"
  have a: "hex_digit (code_point c div 16) \<noteq> sq"
    using code_point_less [of c] by (intro hex_digit_plain) simp
  have b: "hex_digit (code_point c mod 16) \<noteq> sq" by (intro hex_digit_plain) simp
  have lits: "bs \<noteq> sq" "dq \<noteq> sq" "CHR ''n'' \<noteq> sq" "CHR ''r'' \<noteq> sq" "CHR ''t'' \<noteq> sq"
    "CHR ''b'' \<noteq> sq" "CHR ''f'' \<noteq> sq" "CHR ''u'' \<noteq> sq" "CHR ''0'' \<noteq> sq"
    by (simp_all add: sq_def bs_def dq_def)
  show ?thesis using c a b lits by (auto simp: json_escape_def Let_def)
qed

lemma json_string_plain:
  assumes "sq \<notin> set s"
  shows "sq \<notin> set (json_string s)"
proof -
  have "\<forall>c \<in> set s. sq \<notin> set (json_escape c)"
  proof
    fix c
    assume "c \<in> set s"
    then have "c \<noteq> sq" using assms by auto
    then show "sq \<notin> set (json_escape c)" by (rule json_escape_plain)
  qed
  moreover have "dq \<noteq> sq" by (simp add: dq_def sq_def)
  ultimately show ?thesis by (auto simp: json_string_def)
qed

lemma dumps_identifier_plain: "sq \<notin> set i \<Longrightarrow> sq \<notin> set (dumps_identifier i)"
proof -
  assume "sq \<notin> set i"
  then have a: "sq \<notin> set (json_string i)" by (rule json_string_plain)
  have "sq \<notin> set ''identifier''" by (simp add: sq_def)
  then have b: "sq \<notin> set (json_string ''identifier'')" by (rule json_string_plain)
  show ?thesis using a b by (simp add: dumps_identifier_def sq_def)
qed

lemma sql_unquote_plain: "sq \<notin> set s \<Longrightarrow> sql_unquote s = Some s"
  by (induction s rule: sql_unquote.induct) auto

lemma sql_text_literal:
  assumes "sq \<notin> set s"
  shows "sql_text ([sq] @ s @ [sq]) = Some (SText s)"
proof -
  have "[sq] @ s @ [sq] \<noteq> ''NULL''" by (simp add: sq_def)
  moreover have "butlast (tl ([sq] @ s @ [sq])) = s" by (simp add: butlast_append)
  moreover have "2 \<le> length ([sq] @ s @ [sq])" by simp
  ultimately show ?thesis using assms by (simp add: sql_text_def sql_unquote_plain)
qed

lemma numeric_plain: "isnumeric i \<Longrightarrow> sq \<notin> set i"
proof
  assume n: "isnumeric i" and "sq \<in> set i"
  then have "numeric_char sq" by (auto simp: isnumeric_def list_all_iff)
  then show False by (simp add: numeric_char_def code_point_sq)
qed

lemma insert_or_ignore_row: "db (insert_or_ignore t u w) t u \<noteq> None"
  by (auto simp: insert_or_ignore_def split: option.splits)

lemma setup_tables_ok:
  assumes "execute_ok env" and "commit_ok env"
  shows "\<exists>ud w'. setup_tables env u ts ud0 w = (Inr ud, w')
           \<and> (\<forall>t. t \<in> set ts \<longrightarrow> (\<exists>r. ud t = load_row t r))
           \<and> (\<forall>t. t \<notin> set ts \<longrightarrow> ud t = ud0 t)"
proof (induction ts arbitrary: ud0 w)
  case Nil
  then show ?case by simp
next
  case (Cons t ts)
  obtain r where r: "db (insert_or_ignore t u w) t u = Some r"
    using insert_or_ignore_row [of t u w] by auto
  let ?ud1 = "ud0(t := load_row t r)"
  from Cons.IH [of ?ud1 "insert_or_ignore t u w"] obtain ud w' where
    st: "setup_tables env u ts ?ud1 (insert_or_ignore t u w) = (Inr ud, w')" and
    a: "\<forall>t'. t' \<in> set ts \<longrightarrow> (\<exists>r. ud t' = load_row t' r)" and
    b: "\<forall>t'. t' \<notin> set ts \<longrightarrow> ud t' = ?ud1 t'" by blast
  have "setup_tables env u (t # ts) ud0 w = (Inr ud, w')"
    using assms r st by (simp add: Let_def)
  moreover have "\<forall>t'. t' \<in> set (t # ts) \<longrightarrow> (\<exists>r. ud t' = load_row t' r)"
  proof (intro allI impI)
    fix t'
    assume "t' \<in> set (t # ts)"
    then show "\<exists>r. ud t' = load_row t' r"
      using a b by (cases "t' \<in> set ts") auto
  qed
  moreover have "\<forall>t'. t' \<notin> set (t # ts) \<longrightarrow> ud t' = ud0 t'" using b by simp
  ultimately show ?case by blast
qed

lemma all_tables_complete: "t \<in> set all_tables"
  by (cases t) (simp_all add: all_tables_def)

lemma get_user_data_ok:
  assumes "execute_ok env" and "commit_ok env"
  shows "\<exists>pg w'. get_user_data env u t w = (Inr pg, w')
           \<and> (data_cache w u = None \<longrightarrow> (\<exists>r. pg = load_row t r))
           \<and> (\<forall>ud. data_cache w u = Some ud \<longrightarrow> pg = ud t)"
proof (cases "data_cache w u")
  case None
  obtain ud w1 where st: "setup_tables env u all_tables (\<lambda>t. Map.empty) w = (Inr ud, w1)"
    and a: "\<forall>t. t \<in> set all_tables \<longrightarrow> (\<exists>r. ud t = load_row t r)"
    using setup_tables_ok [OF assms, of u all_tables "\<lambda>t. Map.empty" w] by blast
  have "get_user_data env u t w = (Inr (ud t), w1\<lparr>data_cache := (data_cache w1)(u \<mapsto> ud)\<rparr>)"
    using None st by (simp add: get_user_data_def ensure_cached_def setup_data_cache_def)
  then show ?thesis using None a all_tables_complete [of t] by auto
next
  case (Some ud)
  then show ?thesis using get_user_data_hit [OF Some, of env t] by simp
qed

lemma load_row_keys:
  "load_row (table_name h) r MESSAGE_ID \<noteq> None \<and> load_row (table_name h) r STEP \<noteq> None"
  by (cases h) (simp_all add: load_row_def)

lemma generate_markup_ok:
  assumes ok: "execute_ok env" "commit_ok env"
    and del: "\<forall>c m e. delete_message env c m = Some e \<longrightarrow> e = BadRequest"
    and wf: "data_cache w (effective_user_id upd) = None
             \<or> (cached w (effective_user_id upd) (table_name h) MESSAGE_ID \<noteq> None
                 \<and> cached w (effective_user_id upd) (table_name h) STEP \<noteq> None)"
  shows "\<exists>kb w'. generate_markup env h cur l upd w = (Inr kb, w')"
proof -
  let ?u = "effective_user_id upd"
  let ?t = "table_name h"
  have "\<exists>pg w1. get_user_data env ?u ?t w = (Inr pg, w1)
           \<and> (data_cache w ?u = None \<longrightarrow> (\<exists>r. pg = load_row ?t r))
           \<and> (\<forall>ud. data_cache w ?u = Some ud \<longrightarrow> pg = ud ?t)"
    by (rule get_user_data_ok [OF ok])
  then obtain pg where "\<exists>w1. get_user_data env ?u ?t w = (Inr pg, w1)
           \<and> (data_cache w ?u = None \<longrightarrow> (\<exists>r. pg = load_row ?t r))
           \<and> (\<forall>ud. data_cache w ?u = Some ud \<longrightarrow> pg = ud ?t)" ..
  then obtain w1 where all: "get_user_data env ?u ?t w = (Inr pg, w1)
           \<and> (data_cache w ?u = None \<longrightarrow> (\<exists>r. pg = load_row ?t r))
           \<and> (\<forall>ud. data_cache w ?u = Some ud \<longrightarrow> pg = ud ?t)" ..
  have g: "get_user_data env ?u ?t w = (Inr pg, w1)" using all by (rule conjunct1)
  have miss: "data_cache w ?u = None \<longrightarrow> (\<exists>r. pg = load_row ?t r)"
    using all by (rule conjunct1 [OF conjunct2])
  have hit: "\<forall>ud. data_cache w ?u = Some ud \<longrightarrow> pg = ud ?t"
    using all by (rule conjunct2 [OF conjunct2])
  have keys: "pg MESSAGE_ID \<noteq> None \<and> pg STEP \<noteq> None"
  proof (cases "data_cache w ?u")
    case None
    then obtain r where "pg = load_row ?t r" using miss by blast
    then show ?thesis using load_row_keys [of h r] by simp
  next
    case (Some ud)
    then have "pg = ud ?t" using hit by simp
    then show ?thesis using wf Some by (simp add: cached_def)
  qed
  then obtain prev st where prev: "pg MESSAGE_ID = Some prev" and st: "pg STEP = Some st" by auto
  show ?thesis
  proof (cases "truthy prev")
    case True
    let ?w1 = "w1\<lparr>events := events w1 @ [DeleteMessage (effective_chat_id upd) prev]\<rparr>"
    have "data_cache w1 ?u \<noteq> None" using get_user_data_cached(3) [OF g, of pg] by simp
    then obtain ud1 where ud1: "data_cache ?w1 ?u = Some ud1" by auto
    have acc: "fst (set_user_data env ?u ?t [(MESSAGE_ID, PStr ''NULL'')] ?w1) = Inr ()"
      using set_user_data_accepted(1) [OF ud1 ok sql_changes_clear] .
    obtain w2 where su: "set_user_data env ?u ?t [(MESSAGE_ID, PStr ''NULL'')] ?w1 = (Inr (), w2)"
      using acc by (cases "set_user_data env ?u ?t [(MESSAGE_ID, PStr ''NULL'')] ?w1") simp
    have "delete_message env (effective_chat_id upd) prev = None
          \<or> delete_message env (effective_chat_id upd) prev = Some BadRequest"
      using del by (cases "delete_message env (effective_chat_id upd) prev") auto
    then show ?thesis
      using generate_markup_previous [OF g prev True st, of cur l] su by auto
  next
    case False
    then have "generate_markup env h cur l upd w = (Inr (keyboard h st (clamp cur 1 l) l), w1)"
      using g prev st by (simp add: generate_markup_def)
    then show ?thesis by blast
  qed
qed

lemma sql_changes_commit:
  assumes "sq \<notin> set i"
  shows "sql_changes (table_name h)
           [(MESSAGE_ID, PInt m), (REPLY_ID, PInt r), (CURRENT_PAGE, PInt c), (LAST_PAGE, PInt l),
            (KWARGS, PStr ([sq] @ dumps_identifier i @ [sq]))]
         = Some [(MESSAGE_ID, SInt m), (REPLY_ID, SInt r), (CURRENT_PAGE, SInt c), (LAST_PAGE, SInt l),
                 (KWARGS, SText (dumps_identifier i))]"
  using sql_text_literal [OF dumps_identifier_plain [OF assms]]
  by (cases h) (simp_all add: sql_changes_def)

lemma handle_first_numeric_returns:
  assumes numeric: "isnumeric (strip (join '' '' (args upd)))"
    and ok: "execute_ok env" "commit_ok env"
    and api: "get_one env h (strip (join '' '' (args upd))) = Inr body"
    and del: "\<forall>c m e. delete_message env c m = Some e \<longrightarrow> e = BadRequest"
    and reply: "\<forall>b r k. \<exists>m. reply_html env b r k = Inr m"
    and wf: "data_cache w (effective_user_id upd) = None
             \<or> (cached w (effective_user_id upd) (table_name h) MESSAGE_ID \<noteq> None
                 \<and> cached w (effective_user_id upd) (table_name h) STEP \<noteq> None)"
  shows "fst (handle_first env h upd w) = Inr ()"
proof -
  let ?i = "strip (join '' '' (args upd))"
  let ?u = "effective_user_id upd"
  let ?t = "table_name h"
  let ?w1 = "w\<lparr>events := events w @ [GetData h ?i 1]\<rparr>"
  have ne: "?i \<noteq> []" using numeric by (simp add: isnumeric_def)
  have gd: "get_data env h ?i 1 w = (Inr (remove_unspecified_tags env body, OnePage), ?w1)"
    using numeric api by (simp add: get_data_def)
  have wf1: "data_cache ?w1 ?u = None
             \<or> (cached ?w1 ?u ?t MESSAGE_ID \<noteq> None \<and> cached ?w1 ?u ?t STEP \<noteq> None)"
    using wf by (simp add: cached_def)
  obtain kb w2 where gm: "generate_markup env h 1 1 upd ?w1 = (Inr kb, w2)"
    using generate_markup_ok [OF ok del wf1, of 1 1] by blast
  let ?rendered = "remove_unspecified_tags env
      (''1 of '' @ str_int 1 @ [nl, nl] @ remove_unspecified_tags env body)"
  let ?w3 = "w2\<lparr>events := events w2 @ [ReplyHtml ?rendered (PInt (effective_message_id upd)) kb]\<rparr>"
  obtain m where m: "reply_html env ?rendered (PInt (effective_message_id upd)) kb = Inr m"
    using reply by blast
  have "data_cache w2 ?u \<noteq> None" using generate_markup_success(1) [OF gm] .
  then obtain ud3 where ud3: "data_cache ?w3 ?u = Some ud3" by auto
  have acc: "fst (set_user_data env ?u ?t
       [(MESSAGE_ID, PInt m), (REPLY_ID, PInt (effective_message_id upd)),
        (CURRENT_PAGE, PInt 1), (LAST_PAGE, PInt 1),
        (KWARGS, PStr ([sq] @ dumps_identifier ?i @ [sq]))] ?w3) = Inr ()"
    using set_user_data_accepted(1) [OF ud3 ok sql_changes_commit [OF numeric_plain [OF numeric]]] .
  show ?thesis
    using ne gd gm m acc by (simp add: handle_first_def Let_def OnePage_def)
qed

text \<open>
  C8. For an initial query whose identifier is numeric: when the store accepts the
  statements, the API call succeeds, the chat transport sends the reply and a deletion
  fails at most with \<open>BadRequest\<close>, \<open>handle_first\<close> returns; and whenever it returns,
  the committed session has \<open>current_page = 1\<close> and \<open>last_page = 1\<close>, the message was
  sent with an empty markup, and every later navigation click of that user on that
  handler, whatever its step, returns without changing anything, so that the state
  after any run of such clicks is the committed state. The same holds for the session
  as it is read back from the store: a click that reads 1 of 1 returns at once, leaving
  what \<open>get_user_data\<close> leaves.
\<close>

theorem C8_numeric_identifier_one_page:
  assumes numeric: "isnumeric (strip (join '' '' (args upd)))"
  shows "(execute_ok env \<and> commit_ok env
          \<and> (\<exists>body. get_one env h (strip (join '' '' (args upd))) = Inr body)
          \<and> (\<forall>c m e. delete_message env c m = Some e \<longrightarrow> e = BadRequest)
          \<and> (\<forall>b r k. \<exists>m. reply_html env b r k = Inr m)
          \<and> (data_cache w (effective_user_id upd) = None
               \<or> (cached w (effective_user_id upd) (table_name h) MESSAGE_ID \<noteq> None
                   \<and> cached w (effective_user_id upd) (table_name h) STEP \<noteq> None))
          \<longrightarrow> fst (handle_first env h upd w) = Inr ())
       \<and> (handle_first env h upd w = (Inr (), w') \<longrightarrow>
            cached w' (effective_user_id upd) (table_name h) CURRENT_PAGE = Some (PInt 1)
          \<and> cached w' (effective_user_id upd) (table_name h) LAST_PAGE = Some (PInt 1)
          \<and> (\<exists>before body changes. events w' = before @
                [ReplyHtml body (PInt (effective_message_id upd)) [],
                 SqlUpdate (table_name h) (effective_user_id upd) changes])
          \<and> (\<forall>clicks. (\<forall>click \<in> set clicks. fst (snd click) = h
                          \<and> effective_user_id (snd (snd click)) = effective_user_id upd)
                \<longrightarrow> navigate clicks w' = w')
          \<and> (\<forall>env' click d0 d1 ds step. effective_user_id click = effective_user_id upd
                \<and> split_on (CHR '':'') (callback_data click) = d0 # d1 # ds \<and> py_int d1 = Inr step
                \<longrightarrow> handle_next env' h click w' = (Inr (), w')))
       \<and> (\<forall>env' click w0 pg d0 d1 ds step.
             split_on (CHR '':'') (callback_data click) = d0 # d1 # ds \<and> py_int d1 = Inr step
             \<and> fst (get_user_data env' (effective_user_id click) (table_name h) w0) = Inr pg
             \<and> pg CURRENT_PAGE = Some (PInt 1) \<and> pg LAST_PAGE = Some (PInt 1)
             \<longrightarrow> handle_next env' h click w0
                   = (Inr (), snd (get_user_data env' (effective_user_id click) (table_name h) w0)))"
proof (intro conjI)
  show "execute_ok env \<and> commit_ok env
          \<and> (\<exists>body. get_one env h (strip (join '' '' (args upd))) = Inr body)
          \<and> (\<forall>c m e. delete_message env c m = Some e \<longrightarrow> e = BadRequest)
          \<and> (\<forall>b r k. \<exists>m. reply_html env b r k = Inr m)
          \<and> (data_cache w (effective_user_id upd) = None
               \<or> (cached w (effective_user_id upd) (table_name h) MESSAGE_ID \<noteq> None
                   \<and> cached w (effective_user_id upd) (table_name h) STEP \<noteq> None))
          \<longrightarrow> fst (handle_first env h upd w) = Inr ()"
  proof
    assume a: "execute_ok env \<and> commit_ok env
          \<and> (\<exists>body. get_one env h (strip (join '' '' (args upd))) = Inr body)
          \<and> (\<forall>c m e. delete_message env c m = Some e \<longrightarrow> e = BadRequest)
          \<and> (\<forall>b r k. \<exists>m. reply_html env b r k = Inr m)
          \<and> (data_cache w (effective_user_id upd) = None
               \<or> (cached w (effective_user_id upd) (table_name h) MESSAGE_ID \<noteq> None
                   \<and> cached w (effective_user_id upd) (table_name h) STEP \<noteq> None))"
    then obtain body where api: "get_one env h (strip (join '' '' (args upd))) = Inr body"
      by (elim conjE exE)
    from a have ok: "execute_ok env" "commit_ok env" by simp_all
    from a have del: "\<forall>c m e. delete_message env c m = Some e \<longrightarrow> e = BadRequest" by simp
    from a have reply: "\<forall>b r k. \<exists>m. reply_html env b r k = Inr m" by simp
    from a have wf: "data_cache w (effective_user_id upd) = None
               \<or> (cached w (effective_user_id upd) (table_name h) MESSAGE_ID \<noteq> None
                   \<and> cached w (effective_user_id upd) (table_name h) STEP \<noteq> None)" by simp
    show "fst (handle_first env h upd w) = Inr ()"
      using handle_first_numeric_returns [OF numeric ok api del reply wf] .
  qed
next
  show "handle_first env h upd w = (Inr (), w') \<longrightarrow>
            cached w' (effective_user_id upd) (table_name h) CURRENT_PAGE = Some (PInt 1)
          \<and> cached w' (effective_user_id upd) (table_name h) LAST_PAGE = Some (PInt 1)
          \<and> (\<exists>before body changes. events w' = before @
                [ReplyHtml body (PInt (effective_message_id upd)) [],
                 SqlUpdate (table_name h) (effective_user_id upd) changes])
          \<and> (\<forall>clicks. (\<forall>click \<in> set clicks. fst (snd click) = h
                          \<and> effective_user_id (snd (snd click)) = effective_user_id upd)
                \<longrightarrow> navigate clicks w' = w')
          \<and> (\<forall>env' click d0 d1 ds step. effective_user_id click = effective_user_id upd
                \<and> split_on (CHR '':'') (callback_data click) = d0 # d1 # ds \<and> py_int d1 = Inr step
                \<longrightarrow> handle_next env' h click w' = (Inr (), w'))"
  proof
    assume hf: "handle_first env h upd w = (Inr (), w')"
    show "cached w' (effective_user_id upd) (table_name h) CURRENT_PAGE = Some (PInt 1)
          \<and> cached w' (effective_user_id upd) (table_name h) LAST_PAGE = Some (PInt 1)
          \<and> (\<exists>before body changes. events w' = before @
                [ReplyHtml body (PInt (effective_message_id upd)) [],
                 SqlUpdate (table_name h) (effective_user_id upd) changes])
          \<and> (\<forall>clicks. (\<forall>click \<in> set clicks. fst (snd click) = h
                          \<and> effective_user_id (snd (snd click)) = effective_user_id upd)
                \<longrightarrow> navigate clicks w' = w')
          \<and> (\<forall>env' click d0 d1 ds step. effective_user_id click = effective_user_id upd
                \<and> split_on (CHR '':'') (callback_data click) = d0 # d1 # ds \<and> py_int d1 = Inr step
                \<longrightarrow> handle_next env' h click w' = (Inr (), w'))"
      by (rule numeric_session_one_page [OF numeric hf])
  qed
next
  show "\<forall>env' click w0 pg d0 d1 ds step.
             split_on (CHR '':'') (callback_data click) = d0 # d1 # ds \<and> py_int d1 = Inr step
             \<and> fst (get_user_data env' (effective_user_id click) (table_name h) w0) = Inr pg
             \<and> pg CURRENT_PAGE = Some (PInt 1) \<and> pg LAST_PAGE = Some (PInt 1)
             \<longrightarrow> handle_next env' h click w0
                   = (Inr (), snd (get_user_data env' (effective_user_id click) (table_name h) w0))"
  proof (intro allI impI)
    fix env' and click :: tg_update and w0 pg d0 d1 ds step
    assume a: "split_on (CHR '':'') (callback_data click) = d0 # d1 # ds \<and> py_int d1 = Inr step
             \<and> fst (get_user_data env' (effective_user_id click) (table_name h) w0) = Inr pg
             \<and> pg CURRENT_PAGE = Some (PInt 1) \<and> pg LAST_PAGE = Some (PInt 1)"
    obtain w1 where g: "get_user_data env' (effective_user_id click) (table_name h) w0 = (Inr pg, w1)"
      using a by (cases "get_user_data env' (effective_user_id click) (table_name h) w0") simp
    have c: "clamp (1 + step) 1 1 = 1" by (simp add: clamp_def)
    from a have p1: "split_on (CHR '':'') (callback_data click) = d0 # d1 # ds"
      and p2: "py_int d1 = Inr step"
      and p3: "pg CURRENT_PAGE = Some (PInt 1)" and p4: "pg LAST_PAGE = Some (PInt 1)"
      by simp_all
    show "handle_next env' h click w0
            = (Inr (), snd (get_user_data env' (effective_user_id click) (table_name h) w0))"
      using handle_next_no_op [OF p1 p2 g p3 p4 c] g by simp
  qed
qed

theorem C8_numeric_identifier_one_page_witness:
  "isnumeric (strip (join '' '' (args upd_numeric)))
   \<and> fst (handle_first env_ok AnimeKeyboardHandler upd_numeric w_empty) = Inr ()
   \<and> cached (snd (handle_first env_ok AnimeKeyboardHandler upd_numeric w_empty))
        1 KEYBOARD_ANIME LAST_PAGE = Some (PInt 1)
   \<and> navigate [(env_ok, AnimeKeyboardHandler, upd_click ''anime:7''),
               (env_gone, AnimeKeyboardHandler, upd_click ''anime:-3'')]
        (snd (handle_first env_ok AnimeKeyboardHandler upd_numeric w_empty))
      = snd (handle_first env_ok AnimeKeyboardHandler upd_numeric w_empty)"
proof -
  let ?w' = "snd (handle_first env_ok AnimeKeyboardHandler upd_numeric w_empty)"
  have numeric: "isnumeric (strip (join '' '' (args upd_numeric)))"
    by (simp add: eval_defs upd_numeric_def upd_query_def)
  note inst = C8_numeric_identifier_one_page [OF numeric, of env_ok AnimeKeyboardHandler w_empty ?w']
  have env: "execute_ok env_ok \<and> commit_ok env_ok
      \<and> (\<exists>body. get_one env_ok AnimeKeyboardHandler (strip (join '' '' (args upd_numeric))) = Inr body)
      \<and> (\<forall>c m e. delete_message env_ok c m = Some e \<longrightarrow> e = BadRequest)
      \<and> (\<forall>b r k. \<exists>m. reply_html env_ok b r k = Inr m)"
    by (simp add: env_ok_def)
  have fresh: "data_cache w_empty (effective_user_id upd_numeric) = None"
    by (simp add: w_empty_def)
  have ok: "fst (handle_first env_ok AnimeKeyboardHandler upd_numeric w_empty) = Inr ()"
    using inst env fresh by blast
  then have hf: "handle_first env_ok AnimeKeyboardHandler upd_numeric w_empty = (Inr (), ?w')"
    by (simp add: prod_eq_iff)
  have u: "effective_user_id upd_numeric = 1" by (simp add: upd_numeric_def upd_query_def)
  have last: "cached ?w' 1 KEYBOARD_ANIME LAST_PAGE = Some (PInt 1)"
    using inst hf u by simp
  have clicks: "\<forall>click \<in> set [(env_ok, AnimeKeyboardHandler, upd_click ''anime:7''),
               (env_gone, AnimeKeyboardHandler, upd_click ''anime:-3'')].
        fst (snd click) = AnimeKeyboardHandler
        \<and> effective_user_id (snd (snd click)) = effective_user_id upd_numeric"
    by (simp add: upd_click_def u)
  have nav: "navigate [(env_ok, AnimeKeyboardHandler, upd_click ''anime:7''),
               (env_gone, AnimeKeyboardHandler, upd_click ''anime:-3'')] ?w' = ?w'"
    using inst hf clicks by blast
  show ?thesis using numeric ok last nav by simp
qed

end
